theory Spec2Isabelle
  imports Complex_Main "HOL-Library.AList"
begin

section \<open>JavaScript values and exceptions\<close>

text \<open>
  The route handlers work on what \<^verbatim>\<open>JSON.parse\<close> and \<^verbatim>\<open>request.json()\<close> return: untyped
  JavaScript values. Strings are lists of 8-bit code units. A number is a rational
  (every finite double is one; \<^verbatim>\<open>-0\<close> is identified with \<^verbatim>\<open>0\<close>, both are falsy). An object
  is its list of own properties in enumeration order. \<^verbatim>\<open>undefined\<close> only arises as the
  result of reading an absent property, so a property read returns an option.
\<close>

datatype jsval =
    JNull
  | JBool bool
  | JNum rat
  | JStr string
  | JArr "jsval list"
  | JObj "(string \<times> jsval) list"

text \<open>The three exception classes the handlers distinguish, each with its message.\<close>

datatype exn =
    SyntaxError string
  | TypeError string
  | Error string

fun exn_message :: "exn \<Rightarrow> string" where
  "exn_message (SyntaxError m) = m"
| "exn_message (TypeError m) = m"
| "exn_message (Error m) = m"

text \<open>
  \<^verbatim>\<open>v.k\<close> for a value \<^verbatim>\<open>v\<close> that is not \<^verbatim>\<open>null\<close>, and a property name \<^verbatim>\<open>k\<close> that no
  prototype defines (every name the handlers read is such a name: summary, plans,
  destination, country, duration, startDate, endDate, budget, estimated, highlights,
  activities, id, messages, role, content). Reading a property of \<^verbatim>\<open>null\<close> throws; the
  callers test for \<^verbatim>\<open>null\<close> first and raise the \<^verbatim>\<open>TypeError\<close> themselves.
\<close>

fun get :: "jsval \<Rightarrow> string \<Rightarrow> jsval option" where
  "get (JObj kvs) k = map_of kvs k"
| "get _ k = None"

definition cannot_read :: "string \<Rightarrow> exn" where
  "cannot_read k =
     TypeError (''Cannot read properties of null (reading '' @ [CHR 0x27] @ k @ [CHR 0x27] @ '')'')"

text \<open>JavaScript truthiness; \<^verbatim>\<open>undefined\<close> (an absent property) is falsy.\<close>

fun truthy :: "jsval \<Rightarrow> bool" where
  "truthy JNull = False"
| "truthy (JBool b) = b"
| "truthy (JNum n) = (n \<noteq> 0)"
| "truthy (JStr s) = (s \<noteq> [])"
| "truthy (JArr xs) = True"
| "truthy (JObj kvs) = True"

fun truthyo :: "jsval option \<Rightarrow> bool" where
  "truthyo None = False"
| "truthyo (Some v) = truthy v"

text \<open>\<^verbatim>\<open>Array.isArray(x) && x.length !== 0\<close> on the result of a property read.\<close>

fun nonempty_array :: "jsval option \<Rightarrow> bool" where
  "nonempty_array (Some (JArr xs)) = (xs \<noteq> [])"
| "nonempty_array _ = False"

text \<open>\<^verbatim>\<open>typeof x === 'number'\<close> on the result of a property read.\<close>

fun is_number :: "jsval option \<Rightarrow> bool" where
  "is_number (Some (JNum n)) = True"
| "is_number _ = False"

text \<open>Decimal rendering of a non-negative integer, as a template literal renders it.\<close>

fun digit_char :: "nat \<Rightarrow> char" where
  "digit_char n = ''0123456789'' ! (n mod 10)"

function string_of_nat :: "nat \<Rightarrow> string" where
  "string_of_nat n =
     (if n < 10 then [digit_char n] else string_of_nat (n div 10) @ [digit_char n])"
  by pat_completeness auto
termination
  by (relation "measure id") auto

declare string_of_nat.simps [simp del]

section \<open>The conversation handler's validator\<close>

text \<open>
  The callback of \<^verbatim>\<open>parsed.plans.forEach\<close> in \<^verbatim>\<open>validateRecommendationResponse\<close>:
  \<open>None\<close> when the plan passes, otherwise the exception thrown. The checks run in the
  source's order; \<^verbatim>\<open>plan.duration.startDate\<close> is read only when \<^verbatim>\<open>plan.duration\<close> is
  truthy, hence not \<^verbatim>\<open>null\<close>.
\<close>

definition plan_error :: "nat \<Rightarrow> string \<Rightarrow> exn" where
  "plan_error index what = Error (''Plan '' @ string_of_nat (index + 1) @ '' missing '' @ what)"

definition validatePlan :: "nat \<Rightarrow> jsval \<Rightarrow> exn option" where
  "validatePlan index plan =
     (if plan = JNull then Some (cannot_read ''destination'')
      else if \<not> truthyo (get plan ''destination'') \<or> \<not> truthyo (get plan ''country'')
        then Some (plan_error index ''destination or country'')
      else if (case get plan ''duration'' of
                 None \<Rightarrow> True
               | Some d \<Rightarrow> \<not> truthy d \<or> \<not> truthyo (get d ''startDate'')
                            \<or> \<not> truthyo (get d ''endDate''))
        then Some (plan_error index ''duration information'')
      else if (case get plan ''budget'' of
                 None \<Rightarrow> True
               | Some b \<Rightarrow> \<not> truthy b \<or> \<not> is_number (get b ''estimated''))
        then Some (plan_error index ''budget information'')
      else if \<not> nonempty_array (get plan ''highlights'')
        then Some (plan_error index ''highlights'')
      else if \<not> nonempty_array (get plan ''activities'')
        then Some (plan_error index ''activities'')
      else None)"

text \<open>\<^verbatim>\<open>forEach\<close> with its index: the first exception thrown ends the loop.\<close>

fun forEach_plan :: "nat \<Rightarrow> jsval list \<Rightarrow> exn option" where
  "forEach_plan index [] = None"
| "forEach_plan index (plan # rest) =
     (case validatePlan index plan of
        Some e \<Rightarrow> Some e
      | None \<Rightarrow> forEach_plan (Suc index) rest)"

text \<open>
  The body of the \<^verbatim>\<open>try\<close> block after \<^verbatim>\<open>JSON.parse\<close>. The assignment
  \<^verbatim>\<open>parsed.plans = parsed.plans.slice(0, 3)\<close> replaces the value of the existing property in
  place (\<open>AList.update\<close>); the function returns the parsed value itself.
\<close>

definition summary_ok :: "jsval \<Rightarrow> bool" where
  "summary_ok parsed = (case get parsed ''summary'' of Some (JStr s) \<Rightarrow> s \<noteq> [] | _ \<Rightarrow> False)"

fun set_plans :: "jsval \<Rightarrow> jsval list \<Rightarrow> jsval" where
  "set_plans (JObj kvs) ps = JObj (AList.update ''plans'' (JArr ps) kvs)"
| "set_plans v ps = v"

definition validateParsed :: "jsval \<Rightarrow> exn + jsval" where
  "validateParsed parsed =
     (if parsed = JNull then Inl (cannot_read ''summary'')
      else if \<not> summary_ok parsed then Inl (Error ''Missing or invalid summary field'')
      else (case get parsed ''plans'' of
        Some (JArr ps) \<Rightarrow>
          if ps = [] then Inl (Error ''Plans must be a non-empty array'')
          else
            (let ps' = (if length ps > 3 then take 3 ps else ps);
                 parsed' = (if length ps > 3 then set_plans parsed ps' else parsed)
             in (case forEach_plan 0 ps' of
                   Some e \<Rightarrow> Inl e
                 | None \<Rightarrow> Inr parsed'))
      | _ \<Rightarrow> Inl (Error ''Plans must be a non-empty array'')))"

text \<open>
  \<^verbatim>\<open>validateRecommendationResponse\<close>. \<^verbatim>\<open>JSON.parse\<close> belongs to the runtime, not to the
  repository: it is the parameter \<open>parse\<close>, with \<open>None\<close> for a thrown \<^verbatim>\<open>SyntaxError\<close>. The
  \<^verbatim>\<open>catch\<close> clause turns a \<^verbatim>\<open>SyntaxError\<close> into a plain \<^verbatim>\<open>Error\<close> and rethrows
  everything else.
\<close>

definition validateRecommendationResponse :: "(string \<Rightarrow> jsval option) \<Rightarrow> string \<Rightarrow> exn + jsval" where
  "validateRecommendationResponse parse jsonString =
     (case parse jsonString of
        None \<Rightarrow> Inl (Error ''Invalid JSON response from AI'')
      | Some parsed \<Rightarrow> validateParsed parsed)"

section \<open>A reference reader for JSON text\<close>

text \<open>
  The theorems below hold for every \<open>parse\<close>. To run the handlers on concrete completions
  a reader for the JSON grammar (RFC 8259) is defined here: whitespace is space, tab, line
  feed and carriage return; a number is \<^verbatim>\<open>-?(0|[1-9][0-9]*)(.[0-9]+)?([eE][+-]?[0-9]+)?\<close>;
  a repeated key keeps its first position and its last value. It reads \<^verbatim>\<open>\u00XX\<close> escapes
  only (the strings of this model are 8-bit), and does not round numbers to doubles. The
  fuel bounds the number of nested calls; twice the length of the text is never reached.
\<close>

definition is_digit :: "char \<Rightarrow> bool" where
  "is_digit c = (c \<in> set ''0123456789'')"

definition is_json_ws :: "char \<Rightarrow> bool" where
  "is_json_ws c = (c = CHR '' '' \<or> c = CHR 0x09 \<or> c = CHR 0x0A \<or> c = CHR 0x0D)"

definition skip_ws :: "string \<Rightarrow> string" where
  "skip_ws s = dropWhile is_json_ws s"

fun strip_prefix :: "string \<Rightarrow> string \<Rightarrow> string option" where
  "strip_prefix [] s = Some s"
| "strip_prefix (p # ps) [] = None"
| "strip_prefix (p # ps) (c # cs) = (if p = c then strip_prefix ps cs else None)"

definition digit_val :: "char \<Rightarrow> nat" where
  "digit_val c = of_char c - 48"

definition nat_of_digits :: "string \<Rightarrow> nat" where
  "nat_of_digits ds = foldl (\<lambda>a d. 10 * a + digit_val d) 0 ds"

definition hex_val :: "char \<Rightarrow> nat option" where
  "hex_val c =
     (if is_digit c then Some (digit_val c)
      else if c \<in> set ''abcdef'' then Some (of_char c - 87)
      else if c \<in> set ''ABCDEF'' then Some (of_char c - 55)
      else None)"

definition unescape :: "char \<Rightarrow> char option" where
  "unescape e =
     (if e = CHR 0x22 then Some (CHR 0x22)
      else if e = CHR 0x5C then Some (CHR 0x5C)
      else if e = CHR ''/'' then Some (CHR ''/'')
      else if e = CHR ''b'' then Some (CHR 0x08)
      else if e = CHR ''f'' then Some (CHR 0x0C)
      else if e = CHR ''n'' then Some (CHR 0x0A)
      else if e = CHR ''r'' then Some (CHR 0x0D)
      else if e = CHR ''t'' then Some (CHR 0x09)
      else None)"

text \<open>The characters of a string literal after its opening quote, and the rest of the text.\<close>

fun parse_chars :: "string \<Rightarrow> (string \<times> string) option" where
  "parse_chars [] = None"
| "parse_chars (c # cs) =
     (if c = CHR 0x22 then Some ([], cs)
      else if c = CHR 0x5C then
        (case cs of
           [] \<Rightarrow> None
         | e # cs' \<Rightarrow>
             if e = CHR ''u'' then
               (case cs' of
                  h1 # h2 # h3 # h4 # cs'' \<Rightarrow>
                    (case (hex_val h3, hex_val h4) of
                       (Some a, Some b) \<Rightarrow>
                         if h1 = CHR ''0'' \<and> h2 = CHR ''0'' then
                           (case parse_chars cs'' of
                              None \<Rightarrow> None
                            | Some (x, r) \<Rightarrow> Some (char_of (16 * a + b) # x, r))
                         else None
                     | _ \<Rightarrow> None)
                | _ \<Rightarrow> None)
             else
               (case unescape e of
                  None \<Rightarrow> None
                | Some ch \<Rightarrow>
                    (case parse_chars cs' of
                       None \<Rightarrow> None
                     | Some (x, r) \<Rightarrow> Some (ch # x, r))))
      else if (of_char c :: nat) < 32 then None
      else (case parse_chars cs of
              None \<Rightarrow> None
            | Some (x, r) \<Rightarrow> Some (c # x, r)))"

definition scan_exp :: "string \<Rightarrow> (int \<times> string) option" where
  "scan_exp s =
     (case s of
        [] \<Rightarrow> Some (0, s)
      | e # r \<Rightarrow>
          if e = CHR ''e'' \<or> e = CHR ''E'' then
            (let neg = (case r of [] \<Rightarrow> False | g # _ \<Rightarrow> g = CHR ''-'');
                 r1 = (case r of [] \<Rightarrow> r | g # r' \<Rightarrow> if g = CHR ''-'' \<or> g = CHR ''+'' then r' else r);
                 ds = takeWhile is_digit r1
             in if ds = [] then None
                else Some ((if neg then - int (nat_of_digits ds) else int (nat_of_digits ds)),
                           dropWhile is_digit r1))
          else Some (0, s))"

definition scan_frac :: "string \<Rightarrow> (string \<times> string) option" where
  "scan_frac s =
     (case s of
        [] \<Rightarrow> Some ([], s)
      | d # r \<Rightarrow>
          if d = CHR ''.'' then
            (let ds = takeWhile is_digit r
             in if ds = [] then None else Some (ds, dropWhile is_digit r))
          else Some ([], s))"

definition parse_number :: "string \<Rightarrow> (jsval \<times> string) option" where
  "parse_number s =
     (let neg = (case s of [] \<Rightarrow> False | g # _ \<Rightarrow> g = CHR ''-'');
          s1 = (if neg then tl s else s);
          ip = takeWhile is_digit s1
      in if ip = [] \<or> (1 < length ip \<and> hd ip = CHR ''0'') then None
         else (case scan_frac (dropWhile is_digit s1) of
           None \<Rightarrow> None
         | Some (fp, s2) \<Rightarrow>
             (case scan_exp s2 of
                None \<Rightarrow> None
              | Some (ex, s3) \<Rightarrow>
                  let m = (of_nat (nat_of_digits (ip @ fp)) :: rat) / 10 ^ length fp;
                      v = (if 0 \<le> ex then m * 10 ^ nat ex else m / 10 ^ nat (- ex))
                  in Some (JNum (if neg then - v else v), s3))))"

fun parse_value :: "nat \<Rightarrow> string \<Rightarrow> (jsval \<times> string) option"
  and parse_elements :: "nat \<Rightarrow> string \<Rightarrow> jsval list \<Rightarrow> (jsval \<times> string) option"
  and parse_members :: "nat \<Rightarrow> string \<Rightarrow> (string \<times> jsval) list \<Rightarrow> (jsval \<times> string) option"
where
  "parse_value 0 s = None"
| "parse_value (Suc n) s =
     (case skip_ws s of
        [] \<Rightarrow> None
      | c # r \<Rightarrow>
          if c = CHR ''{'' then
            (case skip_ws r of
               [] \<Rightarrow> None
             | c' # r' \<Rightarrow> if c' = CHR ''}'' then Some (JObj [], r') else parse_members n r [])
          else if c = CHR ''['' then
            (case skip_ws r of
               [] \<Rightarrow> None
             | c' # r' \<Rightarrow> if c' = CHR '']'' then Some (JArr [], r') else parse_elements n r [])
          else if c = CHR 0x22 then
            (case parse_chars r of None \<Rightarrow> None | Some (x, r') \<Rightarrow> Some (JStr x, r'))
          else if c = CHR ''t'' then map_option (Pair (JBool True)) (strip_prefix ''rue'' r)
          else if c = CHR ''f'' then map_option (Pair (JBool False)) (strip_prefix ''alse'' r)
          else if c = CHR ''n'' then map_option (Pair JNull) (strip_prefix ''ull'' r)
          else parse_number (c # r))"
| "parse_elements 0 s acc = None"
| "parse_elements (Suc n) s acc =
     (case parse_value n s of
        None \<Rightarrow> None
      | Some (v, r) \<Rightarrow>
          (case skip_ws r of
             [] \<Rightarrow> None
           | c # r' \<Rightarrow>
               if c = CHR '','' then parse_elements n r' (acc @ [v])
               else if c = CHR '']'' then Some (JArr (acc @ [v]), r')
               else None))"
| "parse_members 0 s acc = None"
| "parse_members (Suc n) s acc =
     (case skip_ws s of
        [] \<Rightarrow> None
      | q # r \<Rightarrow>
          if q \<noteq> CHR 0x22 then None
          else (case parse_chars r of
            None \<Rightarrow> None
          | Some (k, r1) \<Rightarrow>
              (case skip_ws r1 of
                 [] \<Rightarrow> None
               | c # r2 \<Rightarrow>
                   if c \<noteq> CHR '':'' then None
                   else (case parse_value n r2 of
                     None \<Rightarrow> None
                   | Some (v, r3) \<Rightarrow>
                       (case skip_ws r3 of
                          [] \<Rightarrow> None
                        | d # r4 \<Rightarrow>
                            if d = CHR '','' then parse_members n r4 (AList.update k v acc)
                            else if d = CHR ''}'' then Some (JObj (AList.update k v acc), r4)
                            else None)))))"

definition JSON_parse :: "string \<Rightarrow> jsval option" where
  "JSON_parse s =
     (case parse_value (2 * length s + 2) s of
        None \<Rightarrow> None
      | Some (v, r) \<Rightarrow> if skip_ws r = [] then Some v else None)"

section \<open>Regular expressions\<close>

text \<open>
  The fragment of JavaScript regular expressions the handlers use: literal characters,
  character classes, sequence, alternation, a greedy optional part, a greedy star over a
  character class (every \<^verbatim>\<open>*\<close> and \<^verbatim>\<open>+\<close> of the source stands on a class), a capturing group and
  the word boundary \<^verbatim>\<open>\b\<close>. A matcher state is the character before the current position (for
  \<^verbatim>\<open>\b\<close>), the text still to read and the text captured so far. \<open>rx_run\<close> lists the states
  after a match in backtracking order, so the head is the match JavaScript reports.
\<close>

datatype rx =
    Chr char
  | Cls "char \<Rightarrow> bool"
  | Eps
  | Seq rx rx
  | Alt rx rx
  | Opt rx
  | Star "char \<Rightarrow> bool"
  | Grp rx
  | WordB

type_synonym rx_state = "char option \<times> string \<times> string option"

definition is_word :: "char \<Rightarrow> bool" where
  "is_word c = (c \<in> set ''abcdefghijklmnopqrstuvwxyzABCDEFGHIJKLMNOPQRSTUVWXYZ0123456789_'')"

definition is_space :: "char \<Rightarrow> bool" where
  "is_space c = (c \<in> {CHR 0x09, CHR 0x0A, CHR 0x0B, CHR 0x0C, CHR 0x0D, CHR '' '', CHR 0xA0})"

definition any_char :: "char \<Rightarrow> bool" where
  "any_char c = True"

fun is_word_opt :: "char option \<Rightarrow> bool" where
  "is_word_opt None = False"
| "is_word_opt (Some c) = is_word c"

fun next_char :: "string \<Rightarrow> char option" where
  "next_char [] = None"
| "next_char (c # cs) = Some c"

fun star_run :: "(char \<Rightarrow> bool) \<Rightarrow> char option \<Rightarrow> string \<Rightarrow> string option \<Rightarrow> rx_state list" where
  "star_run p prev [] g = [(prev, [], g)]"
| "star_run p prev (c # cs) g =
     (if p c then star_run p (Some c) cs g else []) @ [(prev, c # cs, g)]"

fun rx_run :: "rx \<Rightarrow> rx_state \<Rightarrow> rx_state list" where
  "rx_run (Chr c) (prev, s, g) =
     (case s of [] \<Rightarrow> [] | d # ds \<Rightarrow> if d = c then [(Some d, ds, g)] else [])"
| "rx_run (Cls p) (prev, s, g) =
     (case s of [] \<Rightarrow> [] | d # ds \<Rightarrow> if p d then [(Some d, ds, g)] else [])"
| "rx_run Eps st = [st]"
| "rx_run (Seq a b) st = concat (map (rx_run b) (rx_run a st))"
| "rx_run (Alt a b) st = rx_run a st @ rx_run b st"
| "rx_run (Opt a) st = rx_run a st @ [st]"
| "rx_run (Star p) (prev, s, g) = star_run p prev s g"
| "rx_run (Grp a) (prev, s, g) =
     map (\<lambda>(prev', s', g'). (prev', s', Some (take (length s - length s') s)))
         (rx_run a (prev, s, g))"
| "rx_run WordB (prev, s, g) =
     (if is_word_opt prev \<noteq> is_word_opt (next_char s) then [(prev, s, g)] else [])"

text \<open>The leftmost position at which the expression matches, tried from left to right.\<close>

fun rx_search :: "rx \<Rightarrow> char option \<Rightarrow> string \<Rightarrow> rx_state option" where
  "rx_search r prev [] =
     (case rx_run r (prev, [], None) of [] \<Rightarrow> None | st # _ \<Rightarrow> Some st)"
| "rx_search r prev (c # cs) =
     (case rx_run r (prev, c # cs, None) of
        [] \<Rightarrow> rx_search r (Some c) cs
      | st # _ \<Rightarrow> Some st)"

text \<open>\<^verbatim>\<open>regex.test(s)\<close>, and group 1 of \<^verbatim>\<open>s.match(regex)\<close> (\<open>None\<close> when \<^verbatim>\<open>match\<close> is \<^verbatim>\<open>null\<close>).\<close>

definition test :: "rx \<Rightarrow> string \<Rightarrow> bool" where
  "test r s = (rx_search r None s \<noteq> None)"

definition match1 :: "rx \<Rightarrow> string \<Rightarrow> string option" where
  "match1 r s = (case rx_search r None s of Some (_, _, Some g) \<Rightarrow> Some g | _ \<Rightarrow> None)"

text \<open>Abbreviations for writing the source's expressions.\<close>

fun Lit :: "string \<Rightarrow> rx" where
  "Lit [] = Eps"
| "Lit (c # cs) = Seq (Chr c) (Lit cs)"

fun Alts :: "rx list \<Rightarrow> rx" where
  "Alts [] = Eps"
| "Alts [r] = r"
| "Alts (r # rs) = Alt r (Alts rs)"

definition Words :: "string list \<Rightarrow> rx" where
  "Words ws = Grp (Alts (map Lit ws))"

definition Plus :: "(char \<Rightarrow> bool) \<Rightarrow> rx" where
  "Plus p = Seq (Cls p) (Star p)"

fun Seqs :: "rx list \<Rightarrow> rx" where
  "Seqs [] = Eps"
| "Seqs [r] = r"
| "Seqs (r # rs) = Seq r (Seqs rs)"

section \<open>String operations\<close>

text \<open>\<^verbatim>\<open>toLowerCase\<close> on 8-bit code units: A-Z, and U+00C0 to U+00DE except U+00D7.\<close>

definition lower_char :: "char \<Rightarrow> char" where
  "lower_char c =
     (let n = (of_char c :: int)
      in if (65 \<le> n \<and> n \<le> 90) \<or> (192 \<le> n \<and> n \<le> 222 \<and> n \<noteq> 215) then char_of (n + 32) else c)"

definition toLowerCase :: "string \<Rightarrow> string" where
  "toLowerCase s = map lower_char s"

fun join :: "string \<Rightarrow> string list \<Rightarrow> string" where
  "join sep [] = []"
| "join sep [x] = x"
| "join sep (x # y # ys) = x @ sep @ join sep (y # ys)"

definition trim :: "string \<Rightarrow> string" where
  "trim s = rev (dropWhile is_space (rev (dropWhile is_space s)))"

fun str_includes :: "string \<Rightarrow> string \<Rightarrow> bool" where
  "str_includes [] sub = (sub = [])"
| "str_includes (c # cs) sub = (strip_prefix sub (c # cs) \<noteq> None \<or> str_includes cs sub)"

section \<open>The completeness analysis of the conversation handler\<close>

text \<open>
  \<^verbatim>\<open>Message\<close> of \<^verbatim>\<open>lib/types.ts\<close>; its \<^verbatim>\<open>timestamp\<close> is never read by the handlers and is left
  out.
\<close>

datatype Role = User | Assistant | System

record Message =
  role :: Role
  content :: string

record Analysis =
  shouldGenerate :: bool
  missingInfo :: "string list"

text \<open>The seven expressions of \<^verbatim>\<open>shouldGenerateRecommendations\<close>, in the order of the source.\<close>

definition destination_intent_rx :: rx where
  "destination_intent_rx =
     Seqs [WordB,
           Words [''want to'', ''going to'', ''visit'', ''travel to'', ''interested in'',
                  ''thinking about''],
           Plus is_space, Plus is_word]"

definition destination_kind_rx :: rx where
  "destination_kind_rx =
     Seqs [WordB,
           Words [''beach'', ''mountain'', ''city'', ''europe'', ''asia'', ''africa'', ''america'',
                  ''country'', ''island''],
           WordB]"

definition budget_rx :: rx where
  "budget_rx =
     Alts [Seq (Chr CHR ''$'') (Plus is_digit),
           Lit ''budget'', Lit ''spend'', Lit ''afford'', Lit ''cost'', Lit ''price'',
           Lit ''cheap'', Lit ''expensive'',
           Seqs [Plus is_digit, Star is_space, Words [''dollars'', ''usd'', ''euros'', ''pounds'']]]"

definition dates_year_month_rx :: rx where
  "dates_year_month_rx =
     Alt (Seqs [Cls is_digit, Cls is_digit, Cls is_digit, Cls is_digit])
         (Seqs [WordB,
                Words [''january'', ''february'', ''march'', ''april'', ''may'', ''june'', ''july'',
                       ''august'', ''september'', ''october'', ''november'', ''december''],
                WordB])"

definition dates_next_rx :: rx where
  "dates_next_rx =
     Seq (Lit ''next '')
         (Words [''week'', ''month'', ''year'', ''summer'', ''winter'', ''spring'', ''fall''])"

definition dates_in_rx :: rx where
  "dates_in_rx =
     Seqs [Lit ''in '', Plus is_digit, Chr CHR '' '', Words [''days'', ''weeks'', ''months'']]"

definition dates_vague_rx :: rx where
  "dates_vague_rx = Seqs [WordB, Words [''soon'', ''later'', ''planning''], WordB]"

definition hasDestination :: "string \<Rightarrow> bool" where
  "hasDestination conversationText =
     (test destination_intent_rx conversationText \<or> test destination_kind_rx conversationText)"

definition hasBudget :: "string \<Rightarrow> bool" where
  "hasBudget conversationText = test budget_rx conversationText"

definition hasDates :: "string \<Rightarrow> bool" where
  "hasDates conversationText =
     (test dates_year_month_rx conversationText \<or> test dates_next_rx conversationText
      \<or> test dates_in_rx conversationText \<or> test dates_vague_rx conversationText)"

definition conversationText :: "Message list \<Rightarrow> string" where
  "conversationText messages =
     toLowerCase (join '' ''
       (map content (filter (\<lambda>m. role m = User \<or> role m = Assistant) messages)))"

definition shouldGenerateRecommendations :: "Message list \<Rightarrow> Analysis" where
  "shouldGenerateRecommendations messages =
     (let text = conversationText messages;
          missing1 = (if \<not> hasDestination text then [''destination''] else []);
          missing2 = (if \<not> hasBudget text then missing1 @ [''budget''] else missing1);
          missing3 = (if \<not> hasDates text then missing2 @ [''dates''] else missing2)
      in \<lparr> shouldGenerate = hasDestination text \<and> (hasBudget text \<or> hasDates text),
           missingInfo = missing3 \<rparr>)"

section \<open>Responses of the route handlers\<close>

text \<open>
  \<^verbatim>\<open>ErrorResponse\<close> of \<^verbatim>\<open>lib/types.ts\<close>, and the bodies the two handlers pass to
  \<^verbatim>\<open>NextResponse.json\<close> with their HTTP status (200 when none is given). A body field that is
  \<^verbatim>\<open>undefined\<close> is \<open>None\<close>.
\<close>

record ErrorResponse =
  error :: string
  message :: string
  code :: string
  retryable :: bool

datatype body =
    ErrorBody ErrorResponse
  | MessageBody string
  | PlansBody "jsval option" "jsval option"
  | MapErrorBody string

datatype reply = Reply nat body

text \<open>The \<^verbatim>\<open>retryable\<close> flag of a reply, when its body has one.\<close>

fun reply_retryable :: "reply \<Rightarrow> bool option" where
  "reply_retryable (Reply st (ErrorBody r)) = Some (retryable r)"
| "reply_retryable _ = None"

section \<open>The gateway's error responses\<close>

text \<open>
  \<^verbatim>\<open>OpenRouterError\<close> of \<^verbatim>\<open>lib/openrouter.ts\<close>: \<^verbatim>\<open>{ error?: { message, type, code? }, message? }\<close>.
  The fields of the inner object carry the prefix \<open>detail_\<close>, the outer ones are
  \<open>error_detail\<close> and \<open>top_message\<close>. An HTTP response is its status, its status text and the
  result of \<^verbatim>\<open>response.json()\<close>: \<open>NotJSON\<close> when the body is not JSON and the call rejects,
  \<open>JSONNull\<close> for the body \<^verbatim>\<open>null\<close>, \<open>JSONBody\<close> for every other JSON value, read through
  the declared shape (a property that is absent is \<open>None\<close>).
\<close>

record ErrorDetail =
  detail_message :: string
  detail_type :: string
  detail_code :: "string option"

record OpenRouterError =
  error_detail :: "ErrorDetail option"
  top_message :: "string option"

datatype error_body = NotJSON | JSONNull | JSONBody OpenRouterError

record HttpResponse =
  status :: nat
  statusText :: string
  json :: error_body

text \<open>\<^verbatim>\<open>a || b\<close> on optional strings: the first that is present and not empty.\<close>

fun or_else :: "string option \<Rightarrow> string \<Rightarrow> string" where
  "or_else None d = d"
| "or_else (Some x) d = (if x = [] then d else x)"

text \<open>
  \<^verbatim>\<open>handleErrorResponse\<close> never returns: the result is the exception it throws. On the body
  \<^verbatim>\<open>null\<close> that is the \<^verbatim>\<open>TypeError\<close> of reading \<^verbatim>\<open>errorData.error\<close>, before the status is looked
  at.
\<close>

definition errorMessage :: "OpenRouterError \<Rightarrow> string" where
  "errorMessage errorData =
     or_else (map_option detail_message (error_detail errorData))
       (or_else (top_message errorData) ''Unknown error'')"

definition errorCode :: "OpenRouterError \<Rightarrow> nat \<Rightarrow> string" where
  "errorCode errorData st =
     or_else (case error_detail errorData of None \<Rightarrow> None | Some d \<Rightarrow> detail_code d)
       (string_of_nat st)"

definition handleErrorResponse :: "HttpResponse \<Rightarrow> exn" where
  "handleErrorResponse response =
     (case json response of
        NotJSON \<Rightarrow>
          Error (''OpenRouter API error: '' @ string_of_nat (status response) @ '' ''
                 @ statusText response)
      | JSONNull \<Rightarrow> cannot_read ''error''
      | JSONBody errorData \<Rightarrow>
          (let errorMessage = errorMessage errorData;
               errorCode = errorCode errorData (status response)
           in if status response = 401 then
                Error ''Invalid OpenRouter API key. Please check your OPENROUTER_API_KEY environment variable.''
              else if status response = 429 then
                Error ''Rate limit exceeded. Please try again later.''
              else if status response = 400 then
                Error (''Bad request: '' @ errorMessage)
              else if status response = 500 \<or> status response = 502 \<or> status response = 503 then
                Error (''OpenRouter service error: '' @ errorMessage @ ''. Please try again.'')
              else
                Error (''OpenRouter API error ('' @ errorCode @ ''): '' @ errorMessage)))"

section \<open>The conversation handler\<close>

text \<open>The outer \<^verbatim>\<open>catch\<close> of \<^verbatim>\<open>POST\<close> in \<^verbatim>\<open>app/api/assistant/route.ts\<close>.\<close>

definition assistant_catch :: "exn \<Rightarrow> reply" where
  "assistant_catch e =
     (if str_includes (exn_message e) ''API key'' then
        Reply 500 (ErrorBody \<lparr> error = ''Configuration error'',
          message = ''The service is not properly configured. Please contact support.'',
          code = ''CONFIG_ERROR'', retryable = False \<rparr>)
      else if str_includes (exn_message e) ''Rate limit'' then
        Reply 429 (ErrorBody \<lparr> error = ''Rate limit exceeded'',
          message = ''Too many requests. Please wait a moment and try again.'',
          code = ''RATE_LIMIT'', retryable = True \<rparr>)
      else if str_includes (exn_message e) ''network'' \<or> str_includes (exn_message e) ''fetch'' then
        Reply 503 (ErrorBody \<lparr> error = ''Network error'',
          message = ''Unable to connect to the AI service. Please check your connection and try again.'',
          code = ''NETWORK_ERROR'', retryable = True \<rparr>)
      else
        Reply 500 (ErrorBody \<lparr> error = ''Internal server error'',
          message = ''An unexpected error occurred. Please try again.'',
          code = ''INTERNAL_ERROR'', retryable = True \<rparr>))"

text \<open>
  The call to \<^verbatim>\<open>openRouterClient.chat\<close>. The text of the two system prompts is not modelled:
  a prompt is named by the function that builds it and that function's argument. The
  gateway is a parameter: it answers a request with an exception or with the completion's
  \<^verbatim>\<open>content\<close>.
\<close>

datatype prompt = InformationGatheringPrompt "string list" | RecommendationPrompt

datatype responseFormat = json_format | text_format

record ChatRequest =
  systemPrompt :: prompt
  history :: "jsval list"
  temperature :: rat
  maxTokens :: nat
  format :: responseFormat

type_synonym gateway = "ChatRequest \<Rightarrow> exn + string"

text \<open>
  The loop over \<^verbatim>\<open>body.messages\<close>: \<open>Inl\<close> when reading \<^verbatim>\<open>msg.role\<close> throws, \<open>Inr (Some r)\<close>
  when the loop returns the reply \<open>r\<close>, \<open>Inr None\<close> when it runs to its end.
\<close>

definition invalid_message :: reply where
  "invalid_message =
     Reply 400 (ErrorBody \<lparr> error = ''Invalid request'',
       message = ''Each message must have role and content'',
       code = ''INVALID_MESSAGE'', retryable = False \<rparr>)"

definition invalid_request :: reply where
  "invalid_request =
     Reply 400 (ErrorBody \<lparr> error = ''Invalid request'',
       message = ''Messages array is required'',
       code = ''INVALID_REQUEST'', retryable = False \<rparr>)"

fun nonempty_string :: "jsval option \<Rightarrow> bool" where
  "nonempty_string (Some (JStr s)) = (s \<noteq> [])"
| "nonempty_string _ = False"

fun validate_messages :: "jsval list \<Rightarrow> exn + reply option" where
  "validate_messages [] = Inr None"
| "validate_messages (msg # rest) =
     (if msg = JNull then Inl (cannot_read ''role'')
      else if \<not> truthyo (get msg ''role'') \<or> \<not> nonempty_string (get msg ''content'')
        then Inr (Some invalid_message)
      else validate_messages rest)"

text \<open>
  A message of the request as the analysis reads it. The analysis only asks whether
  \<^verbatim>\<open>m.role\<close> is \<^verbatim>\<open>'user'\<close> or \<^verbatim>\<open>'assistant'\<close>; a request may carry any other truthy value,
  which the analysis treats as it treats \<^verbatim>\<open>'system'\<close>.
\<close>

definition toMessage :: "jsval \<Rightarrow> Message" where
  "toMessage msg =
     \<lparr> role = (if get msg ''role'' = Some (JStr ''user'') then User
               else if get msg ''role'' = Some (JStr ''assistant'') then Assistant
               else System),
       content = (case get msg ''content'' of Some (JStr c) \<Rightarrow> c | _ \<Rightarrow> []) \<rparr>"

definition validation_error :: "exn \<Rightarrow> reply" where
  "validation_error e =
     Reply 500 (ErrorBody \<lparr> error = ''Invalid response format'',
       message = exn_message e, code = ''VALIDATION_ERROR'', retryable = True \<rparr>)"

text \<open>
  The request sent to the gateway: the recommendation prompt with 2000 tokens and the JSON
  response format when the analysis says so, otherwise the information gathering prompt with
  300 tokens and the text format; both with the messages of the request after the prompt.
\<close>

definition chat_request :: "Analysis \<Rightarrow> jsval list \<Rightarrow> ChatRequest" where
  "chat_request a msgs =
     (if shouldGenerate a
      then \<lparr> systemPrompt = RecommendationPrompt, history = msgs,
             temperature = 7 / 10, maxTokens = 2000, format = json_format \<rparr>
      else \<lparr> systemPrompt = InformationGatheringPrompt (missingInfo a), history = msgs,
             temperature = 7 / 10, maxTokens = 300, format = text_format \<rparr>)"

text \<open>
  \<^verbatim>\<open>POST\<close> of \<^verbatim>\<open>app/api/assistant/route.ts\<close> on the parsed request body. The result is the
  reply together with the list of requests sent to the gateway.
\<close>

definition assistant_POST ::
  "(string \<Rightarrow> jsval option) \<Rightarrow> gateway \<Rightarrow> jsval \<Rightarrow> reply \<times> ChatRequest list" where
  "assistant_POST parse chat body =
     (if body = JNull then (assistant_catch (cannot_read ''messages''), [])
      else (case get body ''messages'' of
        Some (JArr msgs) \<Rightarrow>
          (case validate_messages msgs of
             Inl e \<Rightarrow> (assistant_catch e, [])
           | Inr (Some r) \<Rightarrow> (r, [])
           | Inr None \<Rightarrow>
               (let a = shouldGenerateRecommendations (map toMessage msgs);
                    request = chat_request a msgs
                in (case chat request of
                      Inl e \<Rightarrow> (assistant_catch e, [request])
                    | Inr completion \<Rightarrow>
                        if shouldGenerate a then
                          (case validateRecommendationResponse parse completion of
                             Inr recommendations \<Rightarrow>
                               (Reply 200 (PlansBody (get recommendations ''plans'')
                                                     (get recommendations ''summary'')),
                                [request])
                           | Inl e \<Rightarrow> (validation_error e, [request]))
                        else (Reply 200 (MessageBody completion), [request]))))
      | _ \<Rightarrow> (invalid_request, [])))"

section \<open>The geographic handler, from the completion on\<close>

text \<open>
  The two expressions of \<^verbatim>\<open>content.match\<close>: a fenced block
  \<^verbatim>\<open>```(?:json)?\s*(\{[\s\S]*\})\s*```\<close>, and the bare \<^verbatim>\<open>(\{[\s\S]*\})\<close>.
\<close>

definition braces_rx :: rx where
  "braces_rx = Grp (Seqs [Chr CHR ''{'', Star any_char, Chr CHR ''}''])"

definition fenced_rx :: rx where
  "fenced_rx =
     Seqs [Lit ''```'', Opt (Lit ''json''), Star is_space, braces_rx, Star is_space, Lit ''```'']"

definition extract_json :: "string \<Rightarrow> string" where
  "extract_json trimmed =
     (case match1 fenced_rx trimmed of
        Some g \<Rightarrow> g
      | None \<Rightarrow> (case match1 braces_rx trimmed of Some g \<Rightarrow> g | None \<Rightarrow> trimmed))"

text \<open>
  \<^verbatim>\<open>{ ...plan, id: plan.id || `map-plan-${Date.now()}-${index}` }\<close>. The spread copies the own
  enumerable properties: those of an object, the indexed elements of an array, the indexed
  characters of a string, none of a number or a boolean. \<open>now index\<close> is the value of
  \<^verbatim>\<open>Date.now()\<close> when the plan at \<open>index\<close> is mapped.
\<close>

definition indexed :: "jsval list \<Rightarrow> (string \<times> jsval) list" where
  "indexed xs = zip (map string_of_nat [0..<length xs]) xs"

fun spread :: "jsval \<Rightarrow> (string \<times> jsval) list" where
  "spread (JObj kvs) = kvs"
| "spread (JArr xs) = indexed xs"
| "spread (JStr s) = indexed (map (\<lambda>c. JStr [c]) s)"
| "spread _ = []"

definition generated_id :: "(nat \<Rightarrow> nat) \<Rightarrow> nat \<Rightarrow> jsval" where
  "generated_id now index =
     JStr (''map-plan-'' @ string_of_nat (now index) @ ''-'' @ string_of_nat index)"

definition id_or_generated :: "(nat \<Rightarrow> nat) \<Rightarrow> nat \<Rightarrow> jsval \<Rightarrow> jsval" where
  "id_or_generated now index plan =
     (case get plan ''id'' of
        None \<Rightarrow> generated_id now index
      | Some v \<Rightarrow> if truthy v then v else generated_id now index)"

definition attach_id :: "(nat \<Rightarrow> nat) \<Rightarrow> nat \<Rightarrow> jsval \<Rightarrow> jsval" where
  "attach_id now index plan =
     JObj (AList.update ''id'' (id_or_generated now index plan) (spread plan))"

text \<open>The callback of \<^verbatim>\<open>parsedResponse.plans.map\<close>: reading \<^verbatim>\<open>plan.id\<close> of \<^verbatim>\<open>null\<close> throws.\<close>

definition with_id :: "(nat \<Rightarrow> nat) \<Rightarrow> nat \<Rightarrow> jsval \<Rightarrow> exn + jsval" where
  "with_id now index plan =
     (if plan = JNull then Inl (cannot_read ''id'') else Inr (attach_id now index plan))"

fun map_plans :: "(nat \<Rightarrow> nat) \<Rightarrow> nat \<Rightarrow> jsval list \<Rightarrow> exn + jsval list" where
  "map_plans now index [] = Inr []"
| "map_plans now index (plan # rest) =
     (case with_id now index plan of
        Inl e \<Rightarrow> Inl e
      | Inr p \<Rightarrow>
          (case map_plans now (Suc index) rest of
             Inl e \<Rightarrow> Inl e
           | Inr ps \<Rightarrow> Inr (p # ps)))"

definition map_catch :: "exn \<Rightarrow> reply" where
  "map_catch e = Reply 500 (MapErrorBody (exn_message e))"

definition default_summary :: jsval where
  "default_summary = JStr ''Here are some travel recommendations for this location.''"

text \<open>
  \<^verbatim>\<open>POST\<close> of \<^verbatim>\<open>app/api/map-recommendations/route.ts\<close> from the comment
  \<^verbatim>\<open>// Parse the response\<close> to its end, as a function of the completion's \<^verbatim>\<open>content\<close>.
\<close>

definition map_POST_response :: "(string \<Rightarrow> jsval option) \<Rightarrow> (nat \<Rightarrow> nat) \<Rightarrow> string \<Rightarrow> reply" where
  "map_POST_response parse now completion =
     (case parse (extract_json (trim completion)) of
        None \<Rightarrow> Reply 500 (MapErrorBody ''Failed to generate valid recommendations. Please try again.'')
      | Some parsedResponse \<Rightarrow>
          if parsedResponse = JNull then map_catch (cannot_read ''plans'')
          else (case get parsedResponse ''plans'' of
            Some (JArr plans) \<Rightarrow>
              (case map_plans now 0 plans of
                 Inl e \<Rightarrow> map_catch e
               | Inr travelPlans \<Rightarrow>
                   Reply 200 (PlansBody (Some (JArr travelPlans))
                     (Some (case get parsedResponse ''summary'' of
                              None \<Rightarrow> default_summary
                            | Some v \<Rightarrow> if truthy v then v else default_summary))))
          | _ \<Rightarrow> Reply 500 (MapErrorBody ''Invalid response format from AI'')))"

section \<open>The required fields of a plan, as the specification lists them\<close>

text \<open>
  The specification's list of what a plan must carry: destination, country, a duration with
  start and end date, a budget with a numeric estimate, highlights and activities that are
  not empty. It is compared with \<open>validatePlan\<close> below.
\<close>

definition required_fields :: "jsval \<Rightarrow> bool" where
  "required_fields plan =
     (truthyo (get plan ''destination'') \<and> truthyo (get plan ''country'')
      \<and> (case get plan ''duration'' of
            None \<Rightarrow> False
          | Some d \<Rightarrow> truthy d \<and> truthyo (get d ''startDate'') \<and> truthyo (get d ''endDate''))
      \<and> (case get plan ''budget'' of
            None \<Rightarrow> False
          | Some b \<Rightarrow> truthy b \<and> is_number (get b ''estimated''))
      \<and> nonempty_array (get plan ''highlights'')
      \<and> nonempty_array (get plan ''activities''))"

section \<open>Example inputs\<close>

text \<open>A plan with every required field and no \<^verbatim>\<open>id\<close>, as JSON text and as the value it denotes.\<close>

definition plan_text :: "string \<Rightarrow> string" where
  \<open>plan_text d =
     ''{"destination":"'' @ d @ ''","country":"Canada",'' @
     ''"duration":{"startDate":"2025-07-01","endDate":"2025-07-01","nights":0,"hours":4},'' @
     ''"budget":{"estimated":120,"currency":"USD"},'' @
     ''"highlights":["Panoramic views"],"activities":["Gondola ride"]}''\<close>

definition plan_value :: "string \<Rightarrow> jsval" where
  "plan_value d =
     JObj [(''destination'', JStr d), (''country'', JStr ''Canada''),
           (''duration'', JObj [(''startDate'', JStr ''2025-07-01''),
                                (''endDate'', JStr ''2025-07-01''),
                                (''nights'', JNum 0), (''hours'', JNum 4)]),
           (''budget'', JObj [(''estimated'', JNum 120), (''currency'', JStr ''USD'')]),
           (''highlights'', JArr [JStr ''Panoramic views'']),
           (''activities'', JArr [JStr ''Gondola ride''])]"

text \<open>A completion with one plan, and one with four plans whose fourth lacks its destination.\<close>

definition one_plan_inner :: string where
  \<open>one_plan_inner = ''"summary":"One option.","plans":['' @ plan_text ''A'' @ '']''\<close>

definition one_plan_text :: string where
  "one_plan_text = CHR ''{'' # one_plan_inner @ [CHR ''}'']"

definition one_plan_value :: jsval where
  "one_plan_value = JObj [(''summary'', JStr ''One option.''), (''plans'', JArr [plan_value ''A''])]"

definition four_plans_text :: string where
  \<open>four_plans_text =
     ''{"summary":"Four options.","plans":['' @ plan_text ''A'' @ '','' @ plan_text ''B'' @ '',''
       @ plan_text ''C'' @ '',{"country":"Canada"}]}''\<close>

definition four_plans_value :: jsval where
  "four_plans_value =
     JObj [(''summary'', JStr ''Four options.''),
           (''plans'', JArr [plan_value ''A'', plan_value ''B'', plan_value ''C'',
                             JObj [(''country'', JStr ''Canada'')]])]"

definition three_plans_value :: jsval where
  "three_plans_value =
     JObj [(''summary'', JStr ''Four options.''),
           (''plans'', JArr [plan_value ''A'', plan_value ''B'', plan_value ''C''])]"

text \<open>
  Three conversations: one user message with a destination only; a conversation whose
  system message alone mentions a budget, whose destination phrase runs over two messages and
  whose month is in capitals; and the empty log.
\<close>

definition scenario_A :: "Message list" where
  "scenario_A = [\<lparr> role = User, content = ''I want to visit Japan'' \<rparr>]"

definition scenario_B :: "Message list" where
  "scenario_B =
     [\<lparr> role = System, content = ''You are a travel advisor on a $5 budget'' \<rparr>,
      \<lparr> role = User, content = ''I WANT TO'' \<rparr>,
      \<lparr> role = Assistant, content = ''Visit where?'' \<rparr>,
      \<lparr> role = User, content = ''In MARCH'' \<rparr>]"

text \<open>A completion with two plans, the second without its duration.\<close>

definition bad_second_text :: string where
  \<open>bad_second_text =
     ''{"summary":"Two options.","plans":['' @ plan_text ''A''
       @ '',{"destination":"B","country":"Canada"}]}''\<close>

definition bad_second_value :: jsval where
  "bad_second_value =
     JObj [(''summary'', JStr ''Two options.''),
           (''plans'', JArr [plan_value ''A'',
                             JObj [(''destination'', JStr ''B''), (''country'', JStr ''Canada'')]])]"

text \<open>The one-plan completion between two sentences.\<close>

definition prose_text :: string where
  \<open>prose_text = ''Here are your plans: '' @ one_plan_text @ '' Enjoy your trip!''\<close>

text \<open>A completion whose plans array holds \<^verbatim>\<open>null\<close>, and a clock for \<^verbatim>\<open>Date.now()\<close>.\<close>

definition null_plan_text :: string where
  \<open>null_plan_text = ''{"summary":"Nothing found.","plans":[null]}''\<close>

definition clock :: "nat \<Rightarrow> nat" where
  "clock index = 1700000000000 + index"

text \<open>
  Request bodies: one user message that names a destination, a month and a budget; and
  \<^verbatim>\<open>{"messages":[null,{"role":"user","content":""}]}\<close>.
\<close>

definition japan_body :: jsval where
  \<open>japan_body =
     JObj [(''messages'',
            JArr [JObj [(''role'', JStr ''user''),
                        (''content'',
                         JStr ''I want to visit Japan in March with a budget of $3000'')]])]\<close>

definition null_message_body :: jsval where
  "null_message_body =
     JObj [(''messages'',
            JArr [JNull, JObj [(''role'', JStr ''user''), (''content'', JStr [])]])]"

text \<open>A gateway that answers every request with a refusal in prose.\<close>

definition refusal :: string where
  "refusal = ''Sorry, I cannot help with that.''"

definition refusing_gateway :: gateway where
  "refusing_gateway request = Inr refusal"

text \<open>
  Error responses of the upstream service: a 401 and a 400 with JSON bodies, a 400 whose
  message mentions an API key, and a 401 whose body is \<^verbatim>\<open>null\<close>.
\<close>

definition unauthorized_401 :: HttpResponse where
  "unauthorized_401 =
     \<lparr> status = 401, statusText = ''Unauthorized'',
       json = JSONBody \<lparr> error_detail = Some \<lparr> detail_message = ''No auth credentials found'',
                                                detail_type = ''auth'', detail_code = None \<rparr>,
                         top_message = None \<rparr> \<rparr>"

definition bad_request_400 :: HttpResponse where
  "bad_request_400 =
     \<lparr> status = 400, statusText = ''Bad Request'',
       json = JSONBody \<lparr> error_detail = Some \<lparr> detail_message = ''max_tokens is too large'',
                                                detail_type = ''invalid_request'',
                                                detail_code = None \<rparr>,
                         top_message = None \<rparr> \<rparr>"

text \<open>A completion with an empty plans array and no summary.\<close>

definition no_plans_text :: string where
  \<open>no_plans_text = ''{"plans":[]}''\<close>

text \<open>The same in a fenced block.\<close>

definition fenced_text :: string where
  \<open>fenced_text = ''```json'' @ [CHR 0x0A] @ no_plans_text @ [CHR 0x0A] @ ''```''\<close>

text \<open>The valid one-plan object in a fenced block between two sentences.\<close>

definition fenced_plan_text :: string where
  \<open>fenced_plan_text =
     ''Here are your plans: ```json'' @ [CHR 0x0A] @ one_plan_text @ [CHR 0x0A]
     @ ''``` Enjoy your trip!''\<close>

definition bad_key_400 :: HttpResponse where
  "bad_key_400 =
     \<lparr> status = 400, statusText = ''Bad Request'',
       json = JSONBody \<lparr> error_detail = Some \<lparr> detail_message = ''Invalid API key format'',
                                                detail_type = ''invalid_request'',
                                                detail_code = None \<rparr>,
                         top_message = None \<rparr> \<rparr>"

definition null_body_401 :: HttpResponse where
  "null_body_401 = \<lparr> status = 401, statusText = ''Unauthorized'', json = JSONNull \<rparr>"

text \<open>
  Completions for the validator: four empty plans under a summary; and a first plan that is
  \<^verbatim>\<open>null\<close> before a plan without country.
\<close>

definition four_empty_text :: string where
  \<open>four_empty_text = ''{"summary":"Four options.","plans":[{},{},{},{}]}''\<close>

definition four_empty_value :: jsval where
  "four_empty_value =
     JObj [(''summary'', JStr ''Four options.''),
           (''plans'', JArr [JObj [], JObj [], JObj [], JObj []])]"

definition null_first_text :: string where
  \<open>null_first_text = ''{"summary":"Two options.","plans":[null,{"destination":"B"}]}''\<close>

definition null_first_value :: jsval where
  "null_first_value =
     JObj [(''summary'', JStr ''Two options.''),
           (''plans'', JArr [JNull, JObj [(''destination'', JStr ''B'')]])]"

text \<open>
  A completion for the geographic handler: an empty summary and five plans, none complete,
  one with its own \<^verbatim>\<open>id\<close>, one with the \<^verbatim>\<open>id\<close> 0; and the plans that handler returns for it.
\<close>

definition five_plans_text :: string where
  \<open>five_plans_text =
     ''{"summary":"","plans":[{"id":"keep","destination":"A"},{"destination":"B"},{},''
     @ ''{"id":0,"x":1},{"country":"C"}]}''\<close>

definition five_plans :: "jsval list" where
  "five_plans =
     [JObj [(''id'', JStr ''keep''), (''destination'', JStr ''A'')],
      JObj [(''destination'', JStr ''B'')],
      JObj [],
      JObj [(''id'', JNum 0), (''x'', JNum 1)],
      JObj [(''country'', JStr ''C'')]]"

definition five_plans_returned :: "jsval list" where
  "five_plans_returned =
     [JObj [(''id'', JStr ''keep''), (''destination'', JStr ''A'')],
      JObj [(''destination'', JStr ''B''), (''id'', JStr ''map-plan-1700000000001-1'')],
      JObj [(''id'', JStr ''map-plan-1700000000002-2'')],
      JObj [(''id'', JStr ''map-plan-1700000000003-3''), (''x'', JNum 1)],
      JObj [(''country'', JStr ''C''), (''id'', JStr ''map-plan-1700000000004-4'')]]"

section \<open>What the expressions match, and the signals of the specification\<close>

text \<open>
  A second reading of the expressions, independent of the matcher: \<open>matches r prev m rest\<close>
  says that \<open>r\<close> matches exactly the text \<open>m\<close>, when \<open>prev\<close> is the character before \<open>m\<close> and
  \<open>rest\<close> the text after it (both only matter to a word boundary); \<open>occurs r t\<close> says that \<open>r\<close>
  matches somewhere in \<open>t\<close>. The matcher is proved to agree with it below.
\<close>

fun last_or :: "char option \<Rightarrow> string \<Rightarrow> char option" where
  "last_or prev [] = prev"
| "last_or prev (c # cs) = last_or (Some c) cs"

fun matches :: "rx \<Rightarrow> char option \<Rightarrow> string \<Rightarrow> string \<Rightarrow> bool" where
  "matches (Chr c) prev m rest = (m = [c])"
| "matches (Cls p) prev m rest = (\<exists>c. m = [c] \<and> p c)"
| "matches Eps prev m rest = (m = [])"
| "matches (Seq a b) prev m rest =
     (\<exists>m1 m2. m = m1 @ m2 \<and> matches a prev m1 (m2 @ rest) \<and> matches b (last_or prev m1) m2 rest)"
| "matches (Alt a b) prev m rest = (matches a prev m rest \<or> matches b prev m rest)"
| "matches (Opt a) prev m rest = (matches a prev m rest \<or> m = [])"
| "matches (Star p) prev m rest = list_all p m"
| "matches (Grp a) prev m rest = matches a prev m rest"
| "matches WordB prev m rest = (m = [] \<and> is_word_opt prev \<noteq> is_word_opt (next_char rest))"

definition occurs :: "rx \<Rightarrow> string \<Rightarrow> bool" where
  "occurs r t = (\<exists>pre m post. t = pre @ m @ post \<and> matches r (last_or None pre) m post)"

text \<open>Vocabulary: a word boundary between two texts, a run of digits, a word of a list
  standing as a whole word in a text, and a word of a list occurring anywhere in it.\<close>

definition word_boundary :: "string \<Rightarrow> string \<Rightarrow> bool" where
  "word_boundary before after
     = (is_word_opt (last_or None before) \<noteq> is_word_opt (next_char after))"

definition digits :: "string \<Rightarrow> bool" where
  "digits d = (d \<noteq> [] \<and> list_all is_digit d)"

definition whole_word :: "string list \<Rightarrow> string \<Rightarrow> bool" where
  "whole_word ws t =
     (\<exists>pre w post. t = pre @ w @ post \<and> w \<in> set ws
        \<and> word_boundary pre (w @ post) \<and> word_boundary (pre @ w) post)"

definition contains :: "string list \<Rightarrow> string \<Rightarrow> bool" where
  "contains ws t = (\<exists>pre w post. t = pre @ w @ post \<and> w \<in> set ws)"

text \<open>
  The three signals in the words of the specification, with its lists of phrases and words. A destination signal is an intent
  phrase that starts at a word boundary and is followed by whitespace and a word, or a
  destination noun as a whole word (the named regions are europe, asia, africa and america).
  A budget signal is a dollar sign followed by digits, or one of the budget words anywhere
  in the text, or digits followed, after optional whitespace, by a currency name. A dates
  signal is four digits in a row, a month name as a whole word, \<^verbatim>\<open>next\<close> and a period,
  \<^verbatim>\<open>in\<close>, digits and a unit, or one of the hedges soon, later, planning as a whole word.
\<close>

definition spec_destination_signal :: "string \<Rightarrow> bool" where
  "spec_destination_signal t =
     ((\<exists>pre phrase sp w post. t = pre @ phrase @ sp @ w @ post
         \<and> phrase \<in> set [''want to'', ''going to'', ''visit'', ''travel to'', ''interested in'',
                          ''thinking about'']
         \<and> word_boundary pre (phrase @ sp @ w @ post)
         \<and> sp \<noteq> [] \<and> list_all is_space sp \<and> w \<noteq> [] \<and> list_all is_word w)
      \<or> whole_word [''beach'', ''mountain'', ''city'', ''europe'', ''asia'', ''africa'', ''america'',
                     ''country'', ''island''] t)"

definition spec_budget_signal :: "string \<Rightarrow> bool" where
  "spec_budget_signal t =
     ((\<exists>pre d post. t = pre @ ''$'' @ d @ post \<and> digits d)
      \<or> contains [''budget'', ''spend'', ''afford'', ''cost'', ''price'', ''cheap'', ''expensive''] t
      \<or> (\<exists>pre d sp c post. t = pre @ d @ sp @ c @ post \<and> digits d \<and> list_all is_space sp
            \<and> c \<in> set [''dollars'', ''usd'', ''euros'', ''pounds'']))"

definition spec_dates_signal :: "string \<Rightarrow> bool" where
  "spec_dates_signal t =
     ((\<exists>pre d post. t = pre @ d @ post \<and> length d = 4 \<and> list_all is_digit d)
      \<or> whole_word [''january'', ''february'', ''march'', ''april'', ''may'', ''june'', ''july'',
                     ''august'', ''september'', ''october'', ''november'', ''december''] t
      \<or> (\<exists>pre p post. t = pre @ ''next '' @ p @ post
            \<and> p \<in> set [''week'', ''month'', ''year'', ''summer'', ''winter'', ''spring'', ''fall''])
      \<or> (\<exists>pre d u post. t = pre @ ''in '' @ d @ '' '' @ u @ post \<and> digits d
            \<and> u \<in> set [''days'', ''weeks'', ''months''])
      \<or> whole_word [''soon'', ''later'', ''planning''] t)"

section \<open>The validator's checks and the required fields\<close>

lemma validatePlan_None_iff: "validatePlan index plan = None \<longleftrightarrow> required_fields plan"
  by (cases "plan = JNull")
     (auto simp: validatePlan_def required_fields_def split: option.splits)

lemma validatePlan_Some: "validatePlan index plan = Some e \<Longrightarrow> \<not> required_fields plan"
  using validatePlan_None_iff [of index plan] by auto

lemma validatePlan_ok: "required_fields plan \<Longrightarrow> validatePlan index plan = None"
  by (simp add: validatePlan_None_iff)

lemma validatePlan_error:
  "plan \<noteq> JNull \<Longrightarrow> \<not> required_fields plan \<Longrightarrow>
   \<exists>what \<in> set [''destination or country'', ''duration information'', ''budget information'',
                 ''highlights'', ''activities''].
     validatePlan index plan = Some (plan_error index what)"
  by (auto simp: validatePlan_def required_fields_def split: option.splits)

lemma forEach_plan_None_iff:
  "forEach_plan index ps = None \<longleftrightarrow> (\<forall>p \<in> set ps. required_fields p)"
  by (induction ps arbitrary: index)
     (auto simp: validatePlan_None_iff dest: validatePlan_Some split: option.splits)

lemma forEach_plan_ok: "\<forall>p \<in> set ps. required_fields p \<Longrightarrow> forEach_plan index ps = None"
  by (simp add: forEach_plan_None_iff)

text \<open>The loop stops at the first plan that fails, with that plan's index.\<close>

lemma forEach_plan_first_failure:
  "i < length ps \<Longrightarrow> \<forall>j < i. required_fields (ps ! j) \<Longrightarrow> \<not> required_fields (ps ! i) \<Longrightarrow>
   forEach_plan index ps = validatePlan (index + i) (ps ! i)"
proof (induction ps arbitrary: index i)
  case Nil
  then show ?case by simp
next
  case (Cons p ps)
  show ?case
  proof (cases i)
    case 0
    with Cons.prems show ?thesis
      by (auto simp: validatePlan_None_iff split: option.splits)
  next
    case (Suc k)
    with Cons.prems have p: "required_fields p" by auto
    from Suc Cons.prems have "forEach_plan (Suc index) ps = validatePlan (Suc index + k) (ps ! k)"
      by (intro Cons.IH) auto
    with p Suc show ?thesis
      by (simp add: validatePlan_ok)
  qed
qed

lemma get_set_plans:
  "get parsed ''plans'' = Some v \<Longrightarrow>
   get (set_plans parsed ps) k = (if k = ''plans'' then Some (JArr ps) else get parsed k)"
  by (cases parsed) (auto simp: update_conv')

text \<open>What a successful validation says about the parsed value, and what it returns.\<close>

lemma validateParsed_Inr:
  "validateParsed parsed = Inr r \<Longrightarrow>
   \<exists>ps. get parsed ''plans'' = Some (JArr ps) \<and> ps \<noteq> [] \<and> summary_ok parsed
        \<and> (\<forall>p \<in> set (take 3 ps). required_fields p)
        \<and> r = (if 3 < length ps then set_plans parsed (take 3 ps) else parsed)"
  by (auto simp: validateParsed_def Let_def forEach_plan_None_iff
           split: if_splits option.splits jsval.splits)

section \<open>The example inputs, evaluated\<close>

lemma parse_one_plan: "JSON_parse one_plan_text = Some one_plan_value"
  unfolding one_plan_text_def one_plan_inner_def one_plan_value_def plan_text_def plan_value_def
  by code_simp

lemma parse_four_plans: "JSON_parse four_plans_text = Some four_plans_value"
  unfolding four_plans_text_def four_plans_value_def plan_text_def plan_value_def by code_simp

lemma required_fields_plan_value: "d \<noteq> [] \<Longrightarrow> required_fields (plan_value d)"
  by (simp add: required_fields_def plan_value_def)

lemma validate_one_plan: "validateRecommendationResponse JSON_parse one_plan_text = Inr one_plan_value"
  by (simp add: validateRecommendationResponse_def parse_one_plan validateParsed_def
        one_plan_value_def summary_ok_def validatePlan_ok required_fields_plan_value)

lemma validate_four_plans:
  "validateRecommendationResponse JSON_parse four_plans_text = Inr three_plans_value"
  by (simp add: validateRecommendationResponse_def parse_four_plans validateParsed_def
        four_plans_value_def three_plans_value_def summary_ok_def validatePlan_ok
        required_fields_plan_value)

lemma non_system: "(role m = User \<or> role m = Assistant) = (role m \<noteq> System)"
  by (cases "role m") auto

section \<open>The geographic handler's plan mapping\<close>

lemma map_plans_Inr:
  "JNull \<notin> set ps \<Longrightarrow>
   \<exists>qs. map_plans now index ps = Inr qs \<and> length qs = length ps
        \<and> (\<forall>k < length ps. qs ! k = attach_id now (index + k) (ps ! k))"
proof (induction ps arbitrary: index)
  case Nil
  then show ?case by simp
next
  case (Cons p ps)
  from Cons.prems have tl: "JNull \<notin> set ps" and hd: "p \<noteq> JNull"
    by auto
  from Cons.IH [OF tl, of "Suc index"] obtain qs where
    qs: "map_plans now (Suc index) ps = Inr qs" "length qs = length ps"
    "\<forall>k < length ps. qs ! k = attach_id now (Suc index + k) (ps ! k)"
    by blast
  have run: "map_plans now index (p # ps) = Inr (attach_id now index p # qs)"
    using hd qs(1) by (simp add: with_id_def)
  have nth: "(attach_id now index p # qs) ! k = attach_id now (index + k) ((p # ps) ! k)"
    if "k < length (p # ps)" for k
  proof (cases k)
    case 0
    then show ?thesis by simp
  next
    case (Suc j)
    with that have "j < length ps" by simp
    with qs(3) Suc show ?thesis by simp
  qed
  show ?case
    using run nth qs(2) by (intro exI [of _ "attach_id now index p # qs"]) simp
qed

lemma map_plans_null:
  "JNull \<in> set ps \<Longrightarrow> map_plans now index ps = Inl (cannot_read ''id'')"
proof (induction ps arbitrary: index)
  case Nil
  then show ?case by simp
next
  case (Cons p ps)
  show ?case
  proof (cases "p = JNull")
    case True
    then show ?thesis by (simp add: with_id_def)
  next
    case False
    with Cons.prems have "JNull \<in> set ps" by auto
    from Cons.IH [OF this] False show ?thesis
      by (simp add: with_id_def)
  qed
qed

lemma truthy_generated_id: "truthy (generated_id now index)"
  by (simp add: generated_id_def)

lemma truthy_id_or_generated: "truthy (id_or_generated now index plan)"
  by (simp add: id_or_generated_def truthy_generated_id split: option.splits)

lemma get_attach_id:
  "get (attach_id now index plan) k
     = (if k = ''id'' then Some (id_or_generated now index plan) else map_of (spread plan) k)"
  by (simp add: attach_id_def update_conv')

lemma attach_id_object:
  "attach_id now index (JObj kvs)
     = JObj (AList.update ''id'' (id_or_generated now index (JObj kvs)) kvs)"
  by (simp add: attach_id_def)

lemma map_POST_response_plans:
  assumes "parse (extract_json (trim completion)) = Some parsedResponse"
    and "get parsedResponse ''plans'' = Some (JArr plans)"
    and "map_plans now 0 plans = Inr travelPlans"
  shows "map_POST_response parse now completion
           = Reply 200 (PlansBody (Some (JArr travelPlans))
               (Some (case get parsedResponse ''summary'' of
                        None \<Rightarrow> default_summary
                      | Some v \<Rightarrow> if truthy v then v else default_summary)))"
proof -
  from assms(2) have "parsedResponse \<noteq> JNull" by auto
  with assms show ?thesis
    by (simp add: map_POST_response_def)
qed

section \<open>The two expressions of the geographic handler\<close>

lemma star_no_close:
  "CHR ''}'' \<notin> set post \<Longrightarrow>
   concat (map (rx_run (Chr CHR ''}'')) (star_run any_char prev post g)) = []"
  by (induction post arbitrary: prev) (auto simp: any_char_def)

lemma star_last_close:
  "CHR ''}'' \<notin> set post \<Longrightarrow>
   \<exists>rest. concat (map (rx_run (Chr CHR ''}'')) (star_run any_char prev (mid @ CHR ''}'' # post) g))
           = (Some CHR ''}'', post, g) # rest"
proof (induction mid arbitrary: prev)
  case Nil
  then show ?case
    by (simp add: any_char_def star_no_close [unfolded any_char_def])
next
  case (Cons m mid)
  from Cons.IH [OF Cons.prems, of "Some m"] show ?case
    by (auto simp: any_char_def)
qed

lemma braces_at_open:
  assumes "CHR ''}'' \<notin> set post"
  shows "\<exists>rest. rx_run braces_rx (prev, CHR ''{'' # mid @ CHR ''}'' # post, g)
           = (Some CHR ''}'', post, Some (CHR ''{'' # mid @ [CHR ''}''])) # rest"
proof -
  from star_last_close [OF assms, of "Some CHR ''{''" mid g] obtain rest where
    "concat (map (rx_run (Chr CHR ''}'')) (star_run any_char (Some CHR ''{'') (mid @ CHR ''}'' # post) g))
       = (Some CHR ''}'', post, g) # rest"
    by blast
  then show ?thesis
    by (simp add: braces_rx_def)
qed

lemma braces_not_at:
  "rx_run braces_rx (prev, [], g) = []"
  "c \<noteq> CHR ''{'' \<Longrightarrow> rx_run braces_rx (prev, c # s, g) = []"
  by (simp_all add: braces_rx_def)

lemma braces_search:
  assumes "CHR ''{'' \<notin> set pre" and "CHR ''}'' \<notin> set post"
  shows "rx_search braces_rx prev (pre @ CHR ''{'' # mid @ CHR ''}'' # post)
           = Some (Some CHR ''}'', post, Some (CHR ''{'' # mid @ [CHR ''}'']))"
  using assms(1)
proof (induction pre arbitrary: prev)
  case Nil
  from braces_at_open [OF assms(2), of prev mid None] show ?case
    by auto
next
  case (Cons c pre)
  then have "c \<noteq> CHR ''{''" and "CHR ''{'' \<notin> set pre"
    by auto
  with Cons.IH [of "Some c"] show ?case
    by (simp add: braces_not_at)
qed

lemma fenced_not_at:
  "rx_run fenced_rx (prev, [], g) = []"
  "c \<noteq> CHR 0x60 \<Longrightarrow> rx_run fenced_rx (prev, c # s, g) = []"
  by (simp_all add: fenced_rx_def)

lemma fenced_search_none:
  "CHR 0x60 \<notin> set s \<Longrightarrow> rx_search fenced_rx prev s = None"
proof (induction s arbitrary: prev)
  case Nil
  show ?case by (simp add: fenced_not_at)
next
  case (Cons c s)
  then have "c \<noteq> CHR 0x60" and "CHR 0x60 \<notin> set s"
    by auto
  with Cons.IH [of "Some c"] show ?case
    by (simp add: fenced_not_at)
qed

lemma extract_json_braces:
  assumes "t = pre @ CHR ''{'' # mid @ CHR ''}'' # post"
    and "CHR ''{'' \<notin> set pre" and "CHR ''}'' \<notin> set post" and "CHR 0x60 \<notin> set t"
  shows "extract_json t = CHR ''{'' # mid @ [CHR ''}'']"
  using assms
  by (simp add: extract_json_def match1_def fenced_search_none braces_search)

lemma extract_prose: "extract_json (trim prose_text) = one_plan_text"
  unfolding prose_text_def one_plan_text_def one_plan_inner_def plan_text_def by code_simp

lemma extract_no_plans: "extract_json (trim no_plans_text) = no_plans_text"
  unfolding no_plans_text_def by code_simp

lemma parse_no_plans: "JSON_parse no_plans_text = Some (JObj [(''plans'', JArr [])])"
  unfolding no_plans_text_def by code_simp

lemma extract_null_plan: "extract_json (trim null_plan_text) = null_plan_text"
  unfolding null_plan_text_def by code_simp

lemma parse_null_plan:
  "JSON_parse null_plan_text
     = Some (JObj [(''summary'', JStr ''Nothing found.''), (''plans'', JArr [JNull])])"
  unfolding null_plan_text_def by code_simp

lemma extract_fenced: "extract_json (trim fenced_text) = no_plans_text"
  unfolding fenced_text_def no_plans_text_def by code_simp

lemma parse_bad_second: "JSON_parse bad_second_text = Some bad_second_value"
  unfolding bad_second_text_def bad_second_value_def plan_text_def plan_value_def by code_simp

section \<open>Request validation of the conversation handler\<close>

lemma validate_messages_reply:
  "validate_messages msgs = Inr (Some r) \<Longrightarrow> r = invalid_message"
  by (induction msgs) (auto split: if_splits)

text \<open>A request that does not pass the checks reaches no gateway.\<close>

lemma no_call_before_validation:
  "get body ''messages'' = Some (JArr msgs) \<Longrightarrow> validate_messages msgs \<noteq> Inr None \<Longrightarrow>
   snd (assistant_POST parse chat body) = []"
  by (cases "validate_messages msgs")
     (auto simp: assistant_POST_def split: option.splits)

lemma validate_messages_rejects:
  "JNull \<notin> set msgs \<Longrightarrow>
   \<exists>m \<in> set msgs. \<not> truthyo (get m ''role'') \<or> \<not> nonempty_string (get m ''content'') \<Longrightarrow>
   validate_messages msgs = Inr (Some invalid_message)"
  by (induction msgs) auto

text \<open>
  With a body that is not \<^verbatim>\<open>null\<close> and messages none of which is \<^verbatim>\<open>null\<close>, the two checks
  answer with status 400, not retryable, and send nothing to the gateway.
\<close>

lemma request_validation_rejects:
  "body \<noteq> JNull \<Longrightarrow> \<forall>msgs. get body ''messages'' \<noteq> Some (JArr msgs) \<Longrightarrow>
   assistant_POST parse chat body = (invalid_request, [])"
  "get body ''messages'' = Some (JArr msgs) \<Longrightarrow> JNull \<notin> set msgs \<Longrightarrow>
   \<exists>m \<in> set msgs. \<not> truthyo (get m ''role'') \<or> \<not> nonempty_string (get m ''content'') \<Longrightarrow>
   assistant_POST parse chat body = (invalid_message, [])"
proof -
  show "assistant_POST parse chat body = (invalid_request, [])"
    if "body \<noteq> JNull" and "\<forall>msgs. get body ''messages'' \<noteq> Some (JArr msgs)"
    using that by (auto simp: assistant_POST_def split: option.splits jsval.splits)
  show "assistant_POST parse chat body = (invalid_message, [])"
    if g: "get body ''messages'' = Some (JArr msgs)" and n: "JNull \<notin> set msgs"
      and b: "\<exists>m \<in> set msgs. \<not> truthyo (get m ''role'') \<or> \<not> nonempty_string (get m ''content'')"
  proof -
    from g have "body \<noteq> JNull" by auto
    with g validate_messages_rejects [OF n b] show ?thesis
      by (simp add: assistant_POST_def)
  qed
qed

section \<open>Messages of the gateway's errors\<close>

lemma includes_api_key:
  "str_includes ''Invalid OpenRouter API key. Please check your OPENROUTER_API_KEY environment variable.'' ''API key''"
  by simp

lemma rate_limit_message:
  "\<not> str_includes ''Rate limit exceeded. Please try again later.'' ''API key''"
  "str_includes ''Rate limit exceeded. Please try again later.'' ''Rate limit''"
  by simp_all

section \<open>Replies of the geographic handler\<close>

lemma map_plans_Inl: "map_plans now index ps = Inl e \<Longrightarrow> e = cannot_read ''id''"
proof (induction ps arbitrary: index)
  case Nil
  then show ?case by simp
next
  case (Cons p ps)
  then show ?case
    by (auto simp: with_id_def split: if_splits sum.splits)
qed

lemma parse_failure_reply_iff:
  "map_POST_response parse now completion
     = Reply 500 (MapErrorBody ''Failed to generate valid recommendations. Please try again.'')
   \<longleftrightarrow> parse (extract_json (trim completion)) = None"
proof (cases "parse (extract_json (trim completion))")
  case None
  then show ?thesis by (simp add: map_POST_response_def)
next
  case (Some parsedResponse)
  show ?thesis
  proof (cases "parsedResponse = JNull")
    case True
    with Some show ?thesis
      by (simp add: map_POST_response_def map_catch_def cannot_read_def)
  next
    case False
    show ?thesis
    proof (cases "\<exists>plans. get parsedResponse ''plans'' = Some (JArr plans)")
      case True
      then obtain plans where g: "get parsedResponse ''plans'' = Some (JArr plans)" by blast
      show ?thesis
      proof (cases "map_plans now 0 plans")
        case (Inl e)
        with map_plans_Inl [OF Inl] Some False g show ?thesis
          by (simp add: map_POST_response_def map_catch_def cannot_read_def)
      next
        case (Inr qs)
        with Some False g show ?thesis
          by (simp add: map_POST_response_def)
      qed
    next
      case no: False
      with Some False show ?thesis
        by (auto simp: map_POST_response_def split: option.splits jsval.splits)
    qed
  qed
qed

section \<open>Further example inputs, evaluated\<close>

lemma parse_prose: "JSON_parse prose_text = None"
  unfolding prose_text_def one_plan_text_def one_plan_inner_def plan_text_def by code_simp

lemma trim_prose:
  "trim prose_text
     = ''Here are your plans: '' @ CHR ''{'' # one_plan_inner @ CHR ''}'' # '' Enjoy your trip!''"
  unfolding prose_text_def one_plan_text_def one_plan_inner_def plan_text_def by code_simp

lemma prose_no_fence: "CHR 0x60 \<notin> set (trim prose_text)"
  unfolding prose_text_def one_plan_text_def one_plan_inner_def plan_text_def by code_simp

lemma japan_analysis:
  "shouldGenerateRecommendations
     [\<lparr> role = User, content = ''I want to visit Japan in March with a budget of $3000'' \<rparr>]
     = \<lparr> shouldGenerate = True, missingInfo = [] \<rparr>"
  by code_simp

lemma refusal_rejected:
  "validateRecommendationResponse JSON_parse refusal = Inl (Error ''Invalid JSON response from AI'')"
  unfolding refusal_def by code_simp

section \<open>The matcher agrees with what the expressions match\<close>

lemma last_or_append: "last_or prev (a @ b) = last_or (last_or prev a) b"
  by (induction a arbitrary: prev) auto

text \<open>Every result of the matcher is a match (soundness), first for the greedy run of a class,
  then for every expression.\<close>

lemma star_run_sound:
  "(p', r', g') \<in> set (star_run p prev t g) \<Longrightarrow>
   \<exists>m. t = m @ r' \<and> list_all p m \<and> p' = last_or prev m \<and> g' = g"
proof (induction t arbitrary: prev)
  case Nil
  then show ?case by auto
next
  case (Cons c t)
  from Cons.prems consider
    (more) "p c" "(p', r', g') \<in> set (star_run p (Some c) t g)"
    | (stop) "(p', r', g') = (prev, c # t, g)"
    by (auto split: if_splits)
  then show ?case
  proof cases
    case more
    from Cons.IH [OF more(2)] obtain m where
      "t = m @ r'" "list_all p m" "p' = last_or (Some c) m" "g' = g"
      by blast
    with more(1) show ?thesis
      by (intro exI [of _ "c # m"]) simp
  next
    case stop
    then show ?thesis
      by (intro exI [of _ "[]"]) simp
  qed
qed

text \<open>Every match is among the results of the matcher (completeness).\<close>

lemma star_run_complete:
  "list_all p m \<Longrightarrow> (last_or prev m, rest, g) \<in> set (star_run p prev (m @ rest) g)"
proof (induction m arbitrary: prev)
  case Nil
  show ?case by (cases rest) auto
next
  case (Cons c m)
  then have "p c" and "list_all p m" by auto
  with Cons.IH [of "Some c"] show ?case by simp
qed

lemma rx_run_sound:
  "(p', r', g') \<in> set (rx_run r (prev, t, g)) \<Longrightarrow>
   \<exists>m. t = m @ r' \<and> matches r prev m r' \<and> p' = last_or prev m"
proof (induction r arbitrary: prev t g p' r' g')
  case (Chr c)
  then show ?case by (auto split: list.splits if_splits)
next
  case (Cls p)
  then show ?case by (auto split: list.splits if_splits)
next
  case Eps
  then show ?case by auto
next
  case (Seq a b)
  from Seq.prems obtain p1 t1 g1 where
    a: "(p1, t1, g1) \<in> set (rx_run a (prev, t, g))"
    and b: "(p', r', g') \<in> set (rx_run b (p1, t1, g1))"
    by auto
  from Seq.IH(1) [OF a] obtain m1 where
    m1: "t = m1 @ t1" "matches a prev m1 t1" "p1 = last_or prev m1" by blast
  from Seq.IH(2) [OF b] obtain m2 where
    m2: "t1 = m2 @ r'" "matches b p1 m2 r'" "p' = last_or p1 m2" by blast
  from m1 m2 show ?case
    by (intro exI [of _ "m1 @ m2"]) (auto simp: last_or_append)
next
  case (Alt a b)
  then show ?case by auto blast+
next
  case (Opt a)
  from Opt.prems consider
    (taken) "(p', r', g') \<in> set (rx_run a (prev, t, g))" | (skipped) "(p', r', g') = (prev, t, g)"
    by auto
  then show ?case
  proof cases
    case taken
    from Opt.IH [OF taken] show ?thesis by auto
  next
    case skipped
    then show ?thesis by (intro exI [of _ "[]"]) simp
  qed
next
  case (Star p)
  then have "(p', r', g') \<in> set (star_run p prev t g)" by simp
  from star_run_sound [OF this] show ?case by auto
next
  case (Grp a)
  from Grp.prems obtain g'' where "(p', r', g'') \<in> set (rx_run a (prev, t, g))"
    by auto
  from Grp.IH [OF this] show ?case by auto
next
  case WordB
  then show ?case by (auto split: if_splits)
qed

lemma rx_run_complete:
  "matches r prev m rest \<Longrightarrow> \<exists>g'. (last_or prev m, rest, g') \<in> set (rx_run r (prev, m @ rest, g))"
proof (induction r arbitrary: prev m rest g)
  case (Chr c)
  then show ?case by auto
next
  case (Cls p)
  then show ?case by auto
next
  case Eps
  then show ?case by auto
next
  case (Seq a b)
  from Seq.prems obtain m1 m2 where
    m: "m = m1 @ m2" and a: "matches a prev m1 (m2 @ rest)"
    and b: "matches b (last_or prev m1) m2 rest"
    by auto
  from Seq.IH(1) [OF a, of g] obtain g1 where
    s1: "(last_or prev m1, m2 @ rest, g1) \<in> set (rx_run a (prev, m1 @ m2 @ rest, g))" by blast
  from Seq.IH(2) [OF b, of g1] obtain g2 where
    s2: "(last_or (last_or prev m1) m2, rest, g2) \<in> set (rx_run b (last_or prev m1, m2 @ rest, g1))"
    by blast
  from s1 s2 m show ?case
    by (auto simp: last_or_append intro!: exI [of _ g2] bexI [OF _ s1])
next
  case (Alt a b)
  from Alt.prems consider "matches a prev m rest" | "matches b prev m rest" by auto
  then show ?case
  proof cases
    case 1
    from Alt.IH(1) [OF 1, of g] show ?thesis by auto
  next
    case 2
    from Alt.IH(2) [OF 2, of g] show ?thesis by auto
  qed
next
  case (Opt a)
  from Opt.prems consider "matches a prev m rest" | "m = []" by auto
  then show ?case
  proof cases
    case 1
    from Opt.IH [OF 1, of g] show ?thesis by auto
  next
    case 2
    then show ?thesis by auto
  qed
next
  case (Star p)
  then have "list_all p m" by simp
  from star_run_complete [OF this, of prev rest g] show ?case by auto
next
  case (Grp a)
  then have "matches a prev m rest" by simp
  from Grp.IH [OF this, of g] obtain g' where
    "(last_or prev m, rest, g') \<in> set (rx_run a (prev, m @ rest, g))" by blast
  then show ?case by (auto intro!: exI rev_image_eqI)
next
  case WordB
  then show ?case by auto
qed

lemma rx_run_nonempty_iff:
  "rx_run r (prev, t, g) \<noteq> [] \<longleftrightarrow> (\<exists>m rest. t = m @ rest \<and> matches r prev m rest)"
proof
  assume "rx_run r (prev, t, g) \<noteq> []"
  then obtain p' r' g' where "(p', r', g') \<in> set (rx_run r (prev, t, g))"
    by (cases "rx_run r (prev, t, g)") auto
  from rx_run_sound [OF this] show "\<exists>m rest. t = m @ rest \<and> matches r prev m rest"
    by blast
next
  assume "\<exists>m rest. t = m @ rest \<and> matches r prev m rest"
  then obtain m rest where "t = m @ rest" "matches r prev m rest" by blast
  with rx_run_complete [of r prev m rest g] show "rx_run r (prev, t, g) \<noteq> []"
    by auto
qed

text \<open>The leftmost search finds a match exactly when the expression matches somewhere.\<close>

lemma rx_search_iff:
  "rx_search r prev t \<noteq> None
   \<longleftrightarrow> (\<exists>pre m post. t = pre @ m @ post \<and> matches r (last_or prev pre) m post)"
proof (induction t arbitrary: prev)
  case Nil
  show ?case
    using rx_run_nonempty_iff [of r prev "[]" None]
    by (auto split: list.splits)
next
  case (Cons c t)
  show ?case
  proof (cases "rx_run r (prev, c # t, None) = []")
    case True
    then have here: "\<not> (\<exists>m rest. c # t = m @ rest \<and> matches r prev m rest)"
      using rx_run_nonempty_iff [of r prev "c # t" None] by simp
    have "rx_search r prev (c # t) \<noteq> None \<longleftrightarrow> rx_search r (Some c) t \<noteq> None"
      using True by simp
    also have "\<dots> \<longleftrightarrow> (\<exists>pre m post. t = pre @ m @ post \<and> matches r (last_or (Some c) pre) m post)"
      by (rule Cons.IH)
    also have "\<dots> \<longleftrightarrow> (\<exists>pre m post. c # t = pre @ m @ post \<and> matches r (last_or prev pre) m post)"
    proof
      assume "\<exists>pre m post. t = pre @ m @ post \<and> matches r (last_or (Some c) pre) m post"
      then obtain pre m post where "t = pre @ m @ post" "matches r (last_or (Some c) pre) m post"
        by blast
      then show "\<exists>pre m post. c # t = pre @ m @ post \<and> matches r (last_or prev pre) m post"
        by (intro exI [of _ "c # pre"] exI [of _ m] exI [of _ post]) simp
    next
      assume "\<exists>pre m post. c # t = pre @ m @ post \<and> matches r (last_or prev pre) m post"
      then obtain pre m post where
        s: "c # t = pre @ m @ post" and mt: "matches r (last_or prev pre) m post"
        by blast
      show "\<exists>pre m post. t = pre @ m @ post \<and> matches r (last_or (Some c) pre) m post"
      proof (cases pre)
        case Nil
        with s mt here show ?thesis by auto
      next
        case (Cons d pre')
        with s mt show ?thesis
          by (intro exI [of _ pre'] exI [of _ m] exI [of _ post]) auto
      qed
    qed
    finally show ?thesis .
  next
    case False
    then have "\<exists>m rest. c # t = m @ rest \<and> matches r prev m rest"
      using rx_run_nonempty_iff [of r prev "c # t" None] by simp
    then obtain m rest where "c # t = m @ rest" "matches r prev m rest" by blast
    then have "\<exists>pre m post. c # t = pre @ m @ post \<and> matches r (last_or prev pre) m post"
      by (intro exI [of _ "[]"] exI [of _ m] exI [of _ rest]) simp
    moreover from False have "rx_search r prev (c # t) \<noteq> None"
      by (auto split: list.splits)
    ultimately show ?thesis by simp
  qed
qed

lemma test_iff_occurs: "test r t \<longleftrightarrow> occurs r t"
  unfolding test_def occurs_def by (rule rx_search_iff)

text \<open>What the builders of expressions match.\<close>

lemma matches_Lit: "matches (Lit w) prev m rest \<longleftrightarrow> m = w"
  by (induction w arbitrary: prev m) auto

lemma matches_Alts_Lit:
  "ws \<noteq> [] \<Longrightarrow> matches (Alts (map Lit ws)) prev m rest \<longleftrightarrow> m \<in> set ws"
proof (induction ws)
  case Nil
  then show ?case by simp
next
  case (Cons w ws)
  show ?case
  proof (cases ws)
    case Nil
    then show ?thesis by (simp add: matches_Lit)
  next
    case (Cons v vs)
    with Cons.IH show ?thesis by (auto simp: matches_Lit)
  qed
qed

lemma matches_Words: "ws \<noteq> [] \<Longrightarrow> matches (Words ws) prev m rest \<longleftrightarrow> m \<in> set ws"
  by (simp add: Words_def matches_Alts_Lit)

lemma matches_Plus: "matches (Plus p) prev m rest \<longleftrightarrow> m \<noteq> [] \<and> list_all p m"
proof (cases m)
  case Nil
  then show ?thesis by (simp add: Plus_def)
next
  case (Cons c cs)
  have "(\<exists>m1 m2. c # cs = m1 @ m2 \<and> (\<exists>d. m1 = [d] \<and> p d) \<and> list_all p m2)
        \<longleftrightarrow> p c \<and> list_all p cs"
    by (auto intro: exI [of _ "[c]"])
  with Cons show ?thesis by (simp add: Plus_def)
qed

lemma occurs_Alt: "occurs (Alt a b) t \<longleftrightarrow> occurs a t \<or> occurs b t"
  by (auto simp: occurs_def)

lemma occurs_Lit: "occurs (Lit w) t \<longleftrightarrow> (\<exists>pre post. t = pre @ w @ post)"
  by (auto simp: occurs_def matches_Lit)

lemma occurs_whole_word:
  "ws \<noteq> [] \<Longrightarrow> occurs (Seqs [WordB, Words ws, WordB]) t \<longleftrightarrow> whole_word ws t"
  by (auto simp: occurs_def whole_word_def word_boundary_def matches_Words last_or_append)

lemma contains_Cons: "contains (w # ws) t \<longleftrightarrow> (\<exists>pre post. t = pre @ w @ post) \<or> contains ws t"
  unfolding contains_def by (simp only: set_simps insert_iff) blast

lemma contains_Nil: "\<not> contains [] t"
  by (simp add: contains_def)

lemma matches_SeqI:
  "m = m1 @ m2 \<Longrightarrow> matches a prev m1 (m2 @ rest) \<Longrightarrow> matches b (last_or prev m1) m2 rest \<Longrightarrow>
   matches (Seq a b) prev m rest"
  by auto

lemma matches_SeqE:
  assumes "matches (Seq a b) prev m rest"
  obtains m1 m2 where "m = m1 @ m2" "matches a prev m1 (m2 @ rest)"
    "matches b (last_or prev m1) m2 rest"
  using assms by auto

lemma occursI: "t = pre @ m @ post \<Longrightarrow> matches r (last_or None pre) m post \<Longrightarrow> occurs r t"
  unfolding occurs_def by blast

lemma occursE:
  assumes "occurs r t"
  obtains pre m post where "t = pre @ m @ post" "matches r (last_or None pre) m post"
  using assms unfolding occurs_def by blast

text \<open>The shapes of the seven expressions of the analysis.\<close>

lemma matches_four_digits:
  "matches (Seqs [Cls is_digit, Cls is_digit, Cls is_digit, Cls is_digit]) prev m rest
   \<longleftrightarrow> length m = 4 \<and> list_all is_digit m"
proof
  assume "matches (Seqs [Cls is_digit, Cls is_digit, Cls is_digit, Cls is_digit]) prev m rest"
  then show "length m = 4 \<and> list_all is_digit m"
    by auto
next
  assume h: "length m = 4 \<and> list_all is_digit m"
  then obtain a b c d where m: "m = [a, b, c, d]"
    by (auto simp: length_Suc_conv numeral_eq_Suc)
  with h have "is_digit a" "is_digit b" "is_digit c" "is_digit d" by auto
  with m show "matches (Seqs [Cls is_digit, Cls is_digit, Cls is_digit, Cls is_digit]) prev m rest"
    apply simp
    apply (rule exI [of _ "[a]"], simp)
    apply (rule exI [of _ "[b]"], simp)
    apply (rule exI [of _ "[c]"], simp)
    done
qed

lemma occurs_intent:
  assumes "ws \<noteq> []"
  shows "occurs (Seqs [WordB, Words ws, Plus is_space, Plus is_word]) t \<longleftrightarrow>
     (\<exists>pre phrase sp w post. t = pre @ phrase @ sp @ w @ post \<and> phrase \<in> set ws
        \<and> word_boundary pre (phrase @ sp @ w @ post)
        \<and> sp \<noteq> [] \<and> list_all is_space sp \<and> w \<noteq> [] \<and> list_all is_word w)"
proof
  assume "occurs (Seqs [WordB, Words ws, Plus is_space, Plus is_word]) t"
  then obtain pre m post where t: "t = pre @ m @ post"
    and m: "matches (Seq WordB (Seq (Words ws) (Seq (Plus is_space) (Plus is_word))))
              (last_or None pre) m post"
    by (auto elim: occursE)
  from m obtain m1 m2 where 1: "m = m1 @ m2" "matches WordB (last_or None pre) m1 (m2 @ post)"
    "matches (Seq (Words ws) (Seq (Plus is_space) (Plus is_word))) (last_or (last_or None pre) m1) m2 post"
    by (rule matches_SeqE)
  from 1(3) obtain phrase m3 where 2: "m2 = phrase @ m3"
    "matches (Words ws) (last_or (last_or None pre) m1) phrase (m3 @ post)"
    "matches (Seq (Plus is_space) (Plus is_word))
       (last_or (last_or (last_or None pre) m1) phrase) m3 post"
    by (rule matches_SeqE)
  from 2(3) obtain sp w where 3: "m3 = sp @ w"
    "matches (Plus is_space) (last_or (last_or (last_or None pre) m1) phrase) sp (w @ post)"
    "matches (Plus is_word) (last_or (last_or (last_or (last_or None pre) m1) phrase) sp) w post"
    by (rule matches_SeqE)
  from 1(2) have e: "m1 = []"
    and b: "is_word_opt (last_or None pre) \<noteq> is_word_opt (next_char (m2 @ post))"
    by simp_all
  have "t = pre @ phrase @ sp @ w @ post"
    using t 1(1) 2(1) 3(1) e by simp
  moreover have "phrase \<in> set ws"
    using 2(2) assms by (simp add: matches_Words)
  moreover have "word_boundary pre (phrase @ sp @ w @ post)"
    using b 2(1) 3(1) by (simp add: word_boundary_def)
  moreover have "sp \<noteq> [] \<and> list_all is_space sp" "w \<noteq> [] \<and> list_all is_word w"
    using 3(2,3) by (simp_all add: matches_Plus)
  ultimately show "\<exists>pre phrase sp w post. t = pre @ phrase @ sp @ w @ post \<and> phrase \<in> set ws
        \<and> word_boundary pre (phrase @ sp @ w @ post)
        \<and> sp \<noteq> [] \<and> list_all is_space sp \<and> w \<noteq> [] \<and> list_all is_word w"
    by blast
next
  assume "\<exists>pre phrase sp w post. t = pre @ phrase @ sp @ w @ post \<and> phrase \<in> set ws
        \<and> word_boundary pre (phrase @ sp @ w @ post)
        \<and> sp \<noteq> [] \<and> list_all is_space sp \<and> w \<noteq> [] \<and> list_all is_word w"
  then obtain pre phrase sp w post where t: "t = pre @ phrase @ sp @ w @ post"
    and p: "phrase \<in> set ws" and b: "word_boundary pre (phrase @ sp @ w @ post)"
    and s: "sp \<noteq> []" "list_all is_space sp" and w: "w \<noteq> []" "list_all is_word w"
    by blast
  let ?p1 = "last_or None pre"
  let ?p2 = "last_or ?p1 phrase"
  have a1: "matches (Plus is_space) ?p2 sp (w @ post)"
    and a2: "matches (Plus is_word) (last_or ?p2 sp) w post"
    using s w by (simp_all add: matches_Plus)
  have c: "matches (Seq (Plus is_space) (Plus is_word)) ?p2 (sp @ w) post"
    by (rule matches_SeqI [OF refl a1 a2])
  have b1: "matches (Words ws) ?p1 phrase ((sp @ w) @ post)"
    using p assms by (simp add: matches_Words)
  have d: "matches (Seq (Words ws) (Seq (Plus is_space) (Plus is_word))) ?p1 (phrase @ sp @ w) post"
    by (rule matches_SeqI [OF refl b1 c])
  have e1: "matches WordB ?p1 [] ((phrase @ sp @ w) @ post)"
    using b by (simp add: word_boundary_def)
  have d': "matches (Seq (Words ws) (Seq (Plus is_space) (Plus is_word))) (last_or ?p1 [])
              (phrase @ sp @ w) post"
    using d by simp
  have "matches (Seq WordB (Seq (Words ws) (Seq (Plus is_space) (Plus is_word)))) ?p1
          ([] @ phrase @ sp @ w) post"
    by (rule matches_SeqI [OF refl e1 d'])
  then have "matches (Seqs [WordB, Words ws, Plus is_space, Plus is_word]) ?p1 (phrase @ sp @ w) post"
    by simp
  moreover have "t = pre @ (phrase @ sp @ w) @ post"
    using t by simp
  ultimately show "occurs (Seqs [WordB, Words ws, Plus is_space, Plus is_word]) t"
    by (rule occursI [rotated])
qed

lemma matches_dollar:
  "matches (Seq (Chr CHR ''$'') (Plus is_digit)) prev m rest \<longleftrightarrow> (\<exists>d. m = ''$'' @ d \<and> digits d)"
proof
  assume "matches (Seq (Chr CHR ''$'') (Plus is_digit)) prev m rest"
  then obtain m1 m2 where "m = m1 @ m2" "matches (Chr CHR ''$'') prev m1 (m2 @ rest)"
    "matches (Plus is_digit) (last_or prev m1) m2 rest"
    by (rule matches_SeqE)
  then have "m = ''$'' @ m2 \<and> digits m2"
    by (simp add: matches_Plus digits_def)
  then show "\<exists>d. m = ''$'' @ d \<and> digits d" ..
next
  assume "\<exists>d. m = ''$'' @ d \<and> digits d"
  then obtain d where m: "m = ''$'' @ d" and d: "digits d" by blast
  have a: "matches (Chr CHR ''$'') prev ''$'' (d @ rest)" by simp
  have b: "matches (Plus is_digit) (last_or prev ''$'') d rest"
    using d by (simp add: matches_Plus digits_def)
  show "matches (Seq (Chr CHR ''$'') (Plus is_digit)) prev m rest"
    unfolding m by (rule matches_SeqI [OF refl a b])
qed

lemma matches_amount:
  assumes "ws \<noteq> []"
  shows "matches (Seqs [Plus is_digit, Star is_space, Words ws]) prev m rest
     \<longleftrightarrow> (\<exists>d sp c. m = d @ sp @ c \<and> digits d \<and> list_all is_space sp \<and> c \<in> set ws)"
proof
  assume "matches (Seqs [Plus is_digit, Star is_space, Words ws]) prev m rest"
  then have "matches (Seq (Plus is_digit) (Seq (Star is_space) (Words ws))) prev m rest"
    by simp
  then obtain d m2 where 1: "m = d @ m2" "matches (Plus is_digit) prev d (m2 @ rest)"
    "matches (Seq (Star is_space) (Words ws)) (last_or prev d) m2 rest"
    by (rule matches_SeqE)
  from 1(3) obtain sp c where 2: "m2 = sp @ c"
    "matches (Star is_space) (last_or prev d) sp (c @ rest)"
    "matches (Words ws) (last_or (last_or prev d) sp) c rest"
    by (rule matches_SeqE)
  from 1 2 assms have "m = d @ sp @ c \<and> digits d \<and> list_all is_space sp \<and> c \<in> set ws"
    by (simp add: matches_Plus matches_Words digits_def)
  then show "\<exists>d sp c. m = d @ sp @ c \<and> digits d \<and> list_all is_space sp \<and> c \<in> set ws"
    by blast
next
  assume "\<exists>d sp c. m = d @ sp @ c \<and> digits d \<and> list_all is_space sp \<and> c \<in> set ws"
  then obtain d sp c where m: "m = d @ sp @ c" and d: "digits d"
    and s: "list_all is_space sp" and c: "c \<in> set ws"
    by blast
  have a: "matches (Plus is_digit) prev d ((sp @ c) @ rest)"
    using d by (simp add: matches_Plus digits_def)
  have b1: "matches (Star is_space) (last_or prev d) sp (c @ rest)"
    using s by simp
  have b2: "matches (Words ws) (last_or (last_or prev d) sp) c rest"
    using c assms by (simp add: matches_Words)
  have b: "matches (Seq (Star is_space) (Words ws)) (last_or prev d) (sp @ c) rest"
    by (rule matches_SeqI [OF refl b1 b2])
  have "matches (Seq (Plus is_digit) (Seq (Star is_space) (Words ws))) prev (d @ sp @ c) rest"
    by (rule matches_SeqI [OF refl a b])
  then show "matches (Seqs [Plus is_digit, Star is_space, Words ws]) prev m rest"
    unfolding m by simp
qed

lemma matches_next:
  assumes "ws \<noteq> []"
  shows "matches (Seq (Lit ''next '') (Words ws)) prev m rest
     \<longleftrightarrow> (\<exists>p. m = ''next '' @ p \<and> p \<in> set ws)"
proof
  assume "matches (Seq (Lit ''next '') (Words ws)) prev m rest"
  then obtain m1 p where 1: "m = m1 @ p" "matches (Lit ''next '') prev m1 (p @ rest)"
    "matches (Words ws) (last_or prev m1) p rest"
    by (rule matches_SeqE)
  from 1(2) have "m1 = ''next ''" by (simp only: matches_Lit)
  with 1 assms have "m = ''next '' @ p \<and> p \<in> set ws"
    by (simp add: matches_Words)
  then show "\<exists>p. m = ''next '' @ p \<and> p \<in> set ws" ..
next
  assume "\<exists>p. m = ''next '' @ p \<and> p \<in> set ws"
  then obtain p where m: "m = ''next '' @ p" and p: "p \<in> set ws" by blast
  have a: "matches (Lit ''next '') prev ''next '' (p @ rest)"
    by (simp only: matches_Lit)
  have b: "matches (Words ws) (last_or prev ''next '') p rest"
    using p assms by (simp add: matches_Words)
  show "matches (Seq (Lit ''next '') (Words ws)) prev m rest"
    unfolding m by (rule matches_SeqI [OF refl a b])
qed

lemma matches_in:
  assumes "ws \<noteq> []"
  shows "matches (Seqs [Lit ''in '', Plus is_digit, Chr CHR '' '', Words ws]) prev m rest
     \<longleftrightarrow> (\<exists>d u. m = ''in '' @ d @ '' '' @ u \<and> digits d \<and> u \<in> set ws)"
proof
  assume "matches (Seqs [Lit ''in '', Plus is_digit, Chr CHR '' '', Words ws]) prev m rest"
  then have "matches (Seq (Lit ''in '') (Seq (Plus is_digit) (Seq (Chr CHR '' '') (Words ws))))
               prev m rest"
    by (simp only: Seqs.simps)
  then obtain m1 m2 where 1: "m = m1 @ m2" "matches (Lit ''in '') prev m1 (m2 @ rest)"
    "matches (Seq (Plus is_digit) (Seq (Chr CHR '' '') (Words ws))) (last_or prev m1) m2 rest"
    by (rule matches_SeqE)
  from 1(3) obtain d m3 where 2: "m2 = d @ m3"
    "matches (Plus is_digit) (last_or prev m1) d (m3 @ rest)"
    "matches (Seq (Chr CHR '' '') (Words ws)) (last_or (last_or prev m1) d) m3 rest"
    by (rule matches_SeqE)
  from 2(3) obtain m4 u where 3: "m3 = m4 @ u"
    "matches (Chr CHR '' '') (last_or (last_or prev m1) d) m4 (u @ rest)"
    "matches (Words ws) (last_or (last_or (last_or prev m1) d) m4) u rest"
    by (rule matches_SeqE)
  from 1(2) have "m1 = ''in ''" by (simp only: matches_Lit)
  moreover from 3(2) have "m4 = '' ''" by simp
  ultimately have "m = ''in '' @ d @ '' '' @ u \<and> digits d \<and> u \<in> set ws"
    using 1(1) 2(1,2) 3(1,3) assms by (simp add: matches_Plus matches_Words digits_def)
  then show "\<exists>d u. m = ''in '' @ d @ '' '' @ u \<and> digits d \<and> u \<in> set ws"
    by blast
next
  assume "\<exists>d u. m = ''in '' @ d @ '' '' @ u \<and> digits d \<and> u \<in> set ws"
  then obtain d u where m: "m = ''in '' @ d @ '' '' @ u" and d: "digits d" and u: "u \<in> set ws"
    by blast
  let ?p1 = "last_or prev ''in ''"
  have c1: "matches (Chr CHR '' '') (last_or ?p1 d) '' '' (u @ rest)" by simp
  have c2: "matches (Words ws) (last_or (last_or ?p1 d) '' '') u rest"
    using u assms by (simp add: matches_Words)
  have c: "matches (Seq (Chr CHR '' '') (Words ws)) (last_or ?p1 d) ('' '' @ u) rest"
    by (rule matches_SeqI [OF refl c1 c2])
  have b1: "matches (Plus is_digit) ?p1 d (('' '' @ u) @ rest)"
    using d by (simp add: matches_Plus digits_def)
  have b: "matches (Seq (Plus is_digit) (Seq (Chr CHR '' '') (Words ws))) ?p1 (d @ '' '' @ u) rest"
    by (rule matches_SeqI [OF refl b1 c])
  have a: "matches (Lit ''in '') prev ''in '' ((d @ '' '' @ u) @ rest)"
    by (simp only: matches_Lit)
  have "matches (Seq (Lit ''in '') (Seq (Plus is_digit) (Seq (Chr CHR '' '') (Words ws))))
          prev (''in '' @ d @ '' '' @ u) rest"
    by (rule matches_SeqI [OF refl a b])
  then show "matches (Seqs [Lit ''in '', Plus is_digit, Chr CHR '' '', Words ws]) prev m rest"
    unfolding m by (simp only: Seqs.simps)
qed

lemma occurs_by_shape:
  assumes "\<And>prev m rest. matches r prev m rest \<longleftrightarrow> (\<exists>x. m = f x \<and> P x)"
  shows "occurs r t \<longleftrightarrow> (\<exists>pre x post. t = pre @ f x @ post \<and> P x)"
  unfolding occurs_def assms by blast

lemma occurs_dollar:
  "occurs (Seq (Chr CHR ''$'') (Plus is_digit)) t
   \<longleftrightarrow> (\<exists>pre d post. t = pre @ ''$'' @ d @ post \<and> digits d)"
  using occurs_by_shape [of "Seq (Chr CHR ''$'') (Plus is_digit)" "\<lambda>d. ''$'' @ d" digits t,
      OF matches_dollar]
  by simp

lemma occurs_amount:
  assumes "ws \<noteq> []"
  shows "occurs (Seqs [Plus is_digit, Star is_space, Words ws]) t \<longleftrightarrow>
     (\<exists>pre d sp c post. t = pre @ d @ sp @ c @ post \<and> digits d \<and> list_all is_space sp
        \<and> c \<in> set ws)"
proof -
  have "occurs (Seqs [Plus is_digit, Star is_space, Words ws]) t \<longleftrightarrow>
     (\<exists>pre x post. t = pre @ (case x of (d, sp, c) \<Rightarrow> d @ sp @ c) @ post
        \<and> (case x of (d, sp, c) \<Rightarrow> digits d \<and> list_all is_space sp \<and> c \<in> set ws))"
    by (rule occurs_by_shape) (simp only: matches_amount [OF assms] split_paired_Ex prod.case)
  then show ?thesis by simp
qed

lemma occurs_four_digits:
  "occurs (Seqs [Cls is_digit, Cls is_digit, Cls is_digit, Cls is_digit]) t
   \<longleftrightarrow> (\<exists>pre d post. t = pre @ d @ post \<and> length d = 4 \<and> list_all is_digit d)"
  unfolding occurs_def by (simp only: matches_four_digits)

lemma occurs_next:
  assumes "ws \<noteq> []"
  shows "occurs (Seq (Lit ''next '') (Words ws)) t
   \<longleftrightarrow> (\<exists>pre p post. t = pre @ ''next '' @ p @ post \<and> p \<in> set ws)"
  using occurs_by_shape [of "Seq (Lit ''next '') (Words ws)" "\<lambda>p. ''next '' @ p"
      "\<lambda>p. p \<in> set ws" t, OF matches_next [OF assms]]
  by simp

lemma occurs_in:
  assumes "ws \<noteq> []"
  shows "occurs (Seqs [Lit ''in '', Plus is_digit, Chr CHR '' '', Words ws]) t
   \<longleftrightarrow> (\<exists>pre d u post. t = pre @ ''in '' @ d @ '' '' @ u @ post \<and> digits d \<and> u \<in> set ws)"
proof -
  have "occurs (Seqs [Lit ''in '', Plus is_digit, Chr CHR '' '', Words ws]) t \<longleftrightarrow>
     (\<exists>pre x post. t = pre @ (case x of (d, u) \<Rightarrow> ''in '' @ d @ '' '' @ u) @ post
        \<and> (case x of (d, u) \<Rightarrow> digits d \<and> u \<in> set ws))"
    by (rule occurs_by_shape) (simp only: matches_in [OF assms] split_paired_Ex prod.case)
  then show ?thesis by simp
qed

text \<open>The three tests of the analysis are the three signals.\<close>

lemma hasDestination_iff: "hasDestination t \<longleftrightarrow> spec_destination_signal t"
  unfolding hasDestination_def spec_destination_signal_def test_iff_occurs
    destination_intent_rx_def destination_kind_rx_def
  by (simp only: occurs_intent occurs_whole_word list.simps(3) not_False_eq_True)

lemma hasBudget_iff: "hasBudget t \<longleftrightarrow> spec_budget_signal t"
  unfolding hasBudget_def spec_budget_signal_def test_iff_occurs budget_rx_def
  by (simp only: Alts.simps occurs_Alt occurs_Lit occurs_dollar occurs_amount
        contains_Cons contains_Nil list.simps(3) simp_thms disj_assoc)

lemma hasDates_iff: "hasDates t \<longleftrightarrow> spec_dates_signal t"
  unfolding hasDates_def spec_dates_signal_def test_iff_occurs
    dates_year_month_rx_def dates_next_rx_def dates_in_rx_def dates_vague_rx_def
  by (simp only: occurs_Alt occurs_four_digits occurs_whole_word occurs_next occurs_in
        list.simps(3) simp_thms disj_assoc)

section \<open>Extraction from a fenced code block\<close>

text \<open>The first expression of the geographic handler on a text that holds a fenced block: the
  search passes over the text before the block, where no backquote stands, and the greedy
  body of the group ends at the last closing brace.\<close>

lemma rx_run_Lit: "rx_run (Lit w) (prev, w @ r, g) = [(last_or prev w, r, g)]"
  by (induction w arbitrary: prev) auto

lemma rx_run_Lit_mismatch:
  "next_char r \<noteq> Some c \<Longrightarrow> rx_run (Lit (c # w)) (prev, r, g) = []"
  by (cases r) auto

lemma head_Seq:
  assumes "\<exists>xs. rx_run a st = x # xs" and "\<exists>ys. rx_run b x = y # ys"
  shows "\<exists>zs. rx_run (Seq a b) st = y # zs"
  using assms by auto

lemma star_run_head:
  "list_all q ws \<Longrightarrow> \<not> q c \<Longrightarrow>
   \<exists>rest. star_run q prev (ws @ c # x) g = (last_or prev ws, c # x, g) # rest"
proof (induction ws arbitrary: prev)
  case Nil
  then show ?case by simp
next
  case (Cons w ws)
  then have "q w" and "list_all q ws" by auto
  from Cons.IH [OF this(2) Cons.prems(2), of "Some w"] this(1) show ?case
    by auto
qed

lemma space_facts:
  "\<not> is_space CHR ''{''" "\<not> is_space CHR 0x60" "\<not> is_space CHR ''}''" "\<not> is_space CHR ''j''"
  by (simp_all add: is_space_def)

lemma spaces_no_close: "list_all is_space ws \<Longrightarrow> CHR ''}'' \<notin> set ws"
  using space_facts(3) by (auto simp: list_all_iff)

lemma opt_json_head:
  assumes "tag = [] \<or> tag = ''json''" and "list_all is_space ws"
  shows "\<exists>p xs. rx_run (Opt (Lit ''json'')) (prev, tag @ ws @ CHR ''{'' # x, g)
                  = (p, ws @ CHR ''{'' # x, g) # xs"
proof -
  from assms(1) show ?thesis
  proof
    assume tag: "tag = []"
    have "next_char (ws @ CHR ''{'' # x) \<noteq> Some CHR ''j''"
      using assms(2) space_facts(4) by (cases ws) auto
    then have "rx_run (Lit ''json'') (prev, ws @ CHR ''{'' # x, g) = []"
      by (rule rx_run_Lit_mismatch)
    with tag show ?thesis by (simp del: Lit.simps)
  next
    assume tag: "tag = ''json''"
    have "rx_run (Lit ''json'') (prev, ''json'' @ ws @ CHR ''{'' # x, g)
            = [(last_or prev ''json'', ws @ CHR ''{'' # x, g)]"
      by (rule rx_run_Lit)
    with tag show ?thesis
      by (simp del: Lit.simps)
  qed
qed

lemma fenced_at_fence:
  assumes tag: "tag = [] \<or> tag = ''json''"
    and ws1: "list_all is_space ws1" and ws2: "list_all is_space ws2"
    and post: "CHR ''}'' \<notin> set post"
  shows "\<exists>p xs. rx_run fenced_rx
           (prev, ''```'' @ tag @ ws1 @ CHR ''{'' # mid @ CHR ''}'' # ws2 @ ''```'' @ post, None)
         = (p, post, Some (CHR ''{'' # mid @ [CHR ''}''])) # xs"
proof -
  let ?cap = "Some (CHR ''{'' # mid @ [CHR ''}''])"
  let ?r5 = "''```'' @ post"
  let ?r4 = "ws2 @ ?r5"
  let ?r3 = "CHR ''{'' # mid @ CHR ''}'' # ?r4"
  let ?r2 = "ws1 @ ?r3"
  let ?r1 = "tag @ ?r2"
  have s1: "\<exists>xs. rx_run (Lit ''```'') (prev, ''```'' @ ?r1, None)
              = (last_or prev ''```'', ?r1, None) # xs"
    by (simp only: rx_run_Lit) blast
  from opt_json_head [OF tag ws1, of "last_or prev ''```''" "mid @ CHR ''}'' # ?r4" None]
  obtain p2 where s2: "\<exists>xs. rx_run (Opt (Lit ''json'')) (last_or prev ''```'', ?r1, None)
              = (p2, ?r2, None) # xs"
    by blast
  have s3: "\<exists>xs. rx_run (Star is_space) (p2, ?r2, None) = (last_or p2 ws1, ?r3, None) # xs"
    using star_run_head [OF ws1 space_facts(1), of p2 "mid @ CHR ''}'' # ?r4" None] by simp
  have "CHR ''}'' \<notin> set ?r4"
    using spaces_no_close [OF ws2] post by simp
  from braces_at_open [OF this, of "last_or p2 ws1" mid None]
  have s4: "\<exists>xs. rx_run braces_rx (last_or p2 ws1, ?r3, None) = (Some CHR ''}'', ?r4, ?cap) # xs"
    by simp
  have s5: "\<exists>xs. rx_run (Star is_space) (Some CHR ''}'', ?r4, ?cap)
              = (last_or (Some CHR ''}'') ws2, ?r5, ?cap) # xs"
    using star_run_head [OF ws2 space_facts(2), of "Some CHR ''}''" "''``'' @ post" ?cap] by simp
  have s6: "\<exists>xs. rx_run (Lit ''```'') (last_or (Some CHR ''}'') ws2, ?r5, ?cap)
              = (last_or (last_or (Some CHR ''}'') ws2) ''```'', post, ?cap) # xs"
    by (simp only: rx_run_Lit) blast
  have "\<exists>xs. rx_run (Seq (Lit ''```'') (Seq (Opt (Lit ''json'')) (Seq (Star is_space)
            (Seq braces_rx (Seq (Star is_space) (Lit ''```''))))))
          (prev, ''```'' @ ?r1, None)
        = (last_or (last_or (Some CHR ''}'') ws2) ''```'', post, ?cap) # xs"
    by (intro head_Seq [OF s1] head_Seq [OF s2] head_Seq [OF s3] head_Seq [OF s4]
          head_Seq [OF s5] s6)
  then show ?thesis
    by (simp only: fenced_rx_def Seqs.simps) blast
qed

lemma rx_search_found:
  "rx_run r (prev, s, None) = x # xs \<Longrightarrow> rx_search r prev s = Some x"
  by (cases s) auto

lemma fenced_search:
  assumes "CHR 0x60 \<notin> set pre"
    and "\<And>p. \<exists>q xs. rx_run fenced_rx (p, s, None) = (q, rest, cap) # xs"
  shows "\<exists>q. rx_search fenced_rx prev (pre @ s) = Some (q, rest, cap)"
  using assms(1)
proof (induction pre arbitrary: prev)
  case Nil
  from assms(2) [of prev] obtain q xs where "rx_run fenced_rx (prev, s, None) = (q, rest, cap) # xs"
    by blast
  from rx_search_found [OF this] show ?case by auto
next
  case (Cons c pre)
  then have "c \<noteq> CHR 0x60" and "CHR 0x60 \<notin> set pre" by auto
  with Cons.IH [of "Some c"] show ?case
    by (simp add: fenced_not_at)
qed

text \<open>The extraction from a fenced block.\<close>

lemma extract_json_fenced:
  assumes "t = pre @ ''```'' @ tag @ ws1 @ CHR ''{'' # mid @ CHR ''}'' # ws2 @ ''```'' @ post"
    and "CHR 0x60 \<notin> set pre" and "tag = [] \<or> tag = ''json''"
    and "list_all is_space ws1" and "list_all is_space ws2" and "CHR ''}'' \<notin> set post"
  shows "extract_json t = CHR ''{'' # mid @ [CHR ''}'']"
proof -
  from fenced_search [OF assms(2), of
      "''```'' @ tag @ ws1 @ CHR ''{'' # mid @ CHR ''}'' # ws2 @ ''```'' @ post"
      post "Some (CHR ''{'' # mid @ [CHR ''}''])" None]
    fenced_at_fence [OF assms(3,4,5,6)]
  obtain q where "rx_search fenced_rx None t = Some (q, post, Some (CHR ''{'' # mid @ [CHR ''}'']))"
    unfolding assms(1) by blast
  then show ?thesis
    by (simp add: extract_json_def match1_def)
qed

section \<open>Further example inputs, evaluated\<close>

lemma trim_fenced_plan:
  "trim fenced_plan_text
     = ''Here are your plans: '' @ ''```'' @ ''json'' @ [CHR 0x0A]
       @ CHR ''{'' # one_plan_inner @ CHR ''}'' # [CHR 0x0A] @ ''```'' @ '' Enjoy your trip!''"
  unfolding fenced_plan_text_def one_plan_text_def one_plan_inner_def plan_text_def by code_simp

lemma parse_fenced_plan: "JSON_parse fenced_plan_text = None"
  unfolding fenced_plan_text_def one_plan_text_def one_plan_inner_def plan_text_def by code_simp

lemma parse_null_first: "JSON_parse null_first_text = Some null_first_value"
  unfolding null_first_text_def null_first_value_def by code_simp

lemma parse_four_empty: "JSON_parse four_empty_text = Some four_empty_value"
  unfolding four_empty_text_def four_empty_value_def by code_simp

lemma parse_five_plans:
  "JSON_parse five_plans_text = Some (JObj [(''summary'', JStr []), (''plans'', JArr five_plans)])"
  unfolding five_plans_text_def five_plans_def by code_simp

lemma extract_five_plans: "extract_json (trim five_plans_text) = five_plans_text"
  unfolding five_plans_text_def by code_simp

section \<open>The claims\<close>

subsection \<open>C1: the number of plans after validation\<close>

text \<open>
  C1, as stated, at a completion with a single valid plan: the validator succeeds and returns
  that one plan, so the lower bound 2 does not hold.
\<close>

theorem C1_one_plan_accepted:
  "validateRecommendationResponse JSON_parse one_plan_text = Inr one_plan_value
   \<and> get one_plan_value ''plans'' = Some (JArr [plan_value ''A''])
   \<and> \<not> 2 \<le> length [plan_value ''A'']"
  by (simp add: validate_one_plan) (simp add: one_plan_value_def)

text \<open>
  C1 (amended): whenever \<open>validateRecommendationResponse\<close> succeeds on a raw text, the text
  parsed to a value whose plans array is not empty, the returned plans are the first three
  of that array, and their number is between 1 and 3. So an array of more than three plans is
  cut to its first three, and an empty array is never accepted.
\<close>

theorem C1_plan_count:
  assumes "validateRecommendationResponse parse raw = Inr r"
  shows "\<exists>parsed ps. parse raw = Some parsed \<and> get parsed ''plans'' = Some (JArr ps) \<and> ps \<noteq> []
           \<and> get r ''plans'' = Some (JArr (take 3 ps))
           \<and> 1 \<le> length (take 3 ps) \<and> length (take 3 ps) \<le> 3"
proof -
  from assms obtain parsed where p: "parse raw = Some parsed" and v: "validateParsed parsed = Inr r"
    by (auto simp: validateRecommendationResponse_def split: option.splits)
  from validateParsed_Inr [OF v] obtain ps where
    ps: "get parsed ''plans'' = Some (JArr ps)" "ps \<noteq> []"
    and r: "r = (if 3 < length ps then set_plans parsed (take 3 ps) else parsed)"
    by blast
  have "get r ''plans'' = Some (JArr (take 3 ps))"
    using ps r by (simp add: get_set_plans)
  moreover have "1 \<le> length (take 3 ps)"
    using ps(2) by (cases ps) auto
  ultimately show ?thesis
    using p ps by auto
qed

text \<open>
  The amended C1 at the completion with four plans: three are returned.
\<close>

theorem C1_plan_count_witness:
  "validateRecommendationResponse JSON_parse four_plans_text = Inr three_plans_value
   \<and> (\<exists>parsed ps. JSON_parse four_plans_text = Some parsed
         \<and> get parsed ''plans'' = Some (JArr ps) \<and> ps \<noteq> []
         \<and> get three_plans_value ''plans'' = Some (JArr (take 3 ps))
         \<and> 1 \<le> length (take 3 ps) \<and> length (take 3 ps) \<le> 3)"
  using C1_plan_count [where parse = JSON_parse and raw = four_plans_text,
      OF validate_four_plans] validate_four_plans
  by simp

subsection \<open>C2: the completeness analysis\<close>

text \<open>
  C2: for every message log, with \<open>t\<close> the lowercased text of the messages that are not
  system messages, joined by single spaces, the analysis reports ready exactly when \<open>t\<close> has a
  destination signal and a budget or a dates signal, and the missing list holds exactly the
  categories among destination, budget and dates whose signal is absent from \<open>t\<close>, whatever
  the value of ready. The signals are \<open>spec_destination_signal\<close>, \<open>spec_budget_signal\<close> and
  \<open>spec_dates_signal\<close>, stated on the text itself and not through the analyser's expressions.
\<close>

theorem C2_completeness_rule:
  "shouldGenerateRecommendations messages =
     (let t = toLowerCase (join '' '' (map content (filter (\<lambda>m. role m \<noteq> System) messages)))
      in \<lparr> shouldGenerate = spec_destination_signal t \<and> (spec_budget_signal t \<or> spec_dates_signal t),
           missingInfo = (if spec_destination_signal t then [] else [''destination''])
                         @ (if spec_budget_signal t then [] else [''budget''])
                         @ (if spec_dates_signal t then [] else [''dates'']) \<rparr>)"
  by (simp add: shouldGenerateRecommendations_def conversationText_def non_system Let_def
        hasDestination_iff hasBudget_iff hasDates_iff)

text \<open>
  C2 on three conversations. In the first the system message alone mentions a budget: it is
  not read, the destination phrase and the month come from the joined, lowercased user and
  assistant messages, and the budget is reported missing although the analysis is ready. In
  the second only the destination is present; in the empty log nothing is. In each the
  signals present are exactly the categories not reported missing.
\<close>

theorem C2_completeness_rule_witness:
  "shouldGenerateRecommendations scenario_B
     = \<lparr> shouldGenerate = True, missingInfo = [''budget''] \<rparr>
   \<and> spec_destination_signal ''i want to visit where? in march''
   \<and> \<not> spec_budget_signal ''i want to visit where? in march''
   \<and> spec_dates_signal ''i want to visit where? in march''
   \<and> shouldGenerateRecommendations scenario_A
     = \<lparr> shouldGenerate = False, missingInfo = [''budget'', ''dates''] \<rparr>
   \<and> spec_destination_signal ''i want to visit japan''
   \<and> \<not> spec_budget_signal ''i want to visit japan''
   \<and> \<not> spec_dates_signal ''i want to visit japan''
   \<and> shouldGenerateRecommendations []
     = \<lparr> shouldGenerate = False, missingInfo = [''destination'', ''budget'', ''dates''] \<rparr>
   \<and> \<not> spec_destination_signal [] \<and> \<not> spec_budget_signal [] \<and> \<not> spec_dates_signal []"
proof -
  have tB: "toLowerCase (join '' '' (map content (filter (\<lambda>m. role m \<noteq> System) scenario_B)))
              = ''i want to visit where? in march''"
    unfolding scenario_B_def by code_simp
  have vB: "shouldGenerateRecommendations scenario_B
              = \<lparr> shouldGenerate = True, missingInfo = [''budget''] \<rparr>"
    unfolding scenario_B_def by code_simp
  have sB: "spec_destination_signal ''i want to visit where? in march''
            \<and> \<not> spec_budget_signal ''i want to visit where? in march''
            \<and> spec_dates_signal ''i want to visit where? in march''"
    using C2_completeness_rule [of scenario_B] unfolding Let_def tB vB
    by (auto split: if_splits)
  have tA: "toLowerCase (join '' '' (map content (filter (\<lambda>m. role m \<noteq> System) scenario_A)))
              = ''i want to visit japan''"
    unfolding scenario_A_def by code_simp
  have vA: "shouldGenerateRecommendations scenario_A
              = \<lparr> shouldGenerate = False, missingInfo = [''budget'', ''dates''] \<rparr>"
    unfolding scenario_A_def by code_simp
  have sA: "spec_destination_signal ''i want to visit japan''
            \<and> \<not> spec_budget_signal ''i want to visit japan''
            \<and> \<not> spec_dates_signal ''i want to visit japan''"
    using C2_completeness_rule [of scenario_A] unfolding Let_def tA vA
    by (auto split: if_splits)
  have tE: "toLowerCase (join '' '' (map content (filter (\<lambda>m. role m \<noteq> System) []))) = []"
    by code_simp
  have vE: "shouldGenerateRecommendations []
              = \<lparr> shouldGenerate = False, missingInfo = [''destination'', ''budget'', ''dates''] \<rparr>"
    by code_simp
  have sE: "\<not> spec_destination_signal [] \<and> \<not> spec_budget_signal [] \<and> \<not> spec_dates_signal []"
    using C2_completeness_rule [of "[]"] unfolding Let_def tE vE
    by (auto split: if_splits)
  from vB sB vA sA vE sE show ?thesis
    by (intro conjI) (elim conjE, assumption)+
qed

subsection \<open>C3: a JSON object inside other text\<close>

text \<open>
  C3, as stated, at a valid one-plan object between a leading and a trailing sentence: the
  object alone passes the validator, the whole text does not parse, and the validator fails
  with its parse error. It makes no attempt to find the object.
\<close>

theorem C3_validator_no_recovery:
  "JSON_parse prose_text = None
   \<and> validateRecommendationResponse JSON_parse one_plan_text = Inr one_plan_value
   \<and> validateRecommendationResponse JSON_parse prose_text
       = Inl (Error ''Invalid JSON response from AI'')"
proof -
  have "validateRecommendationResponse JSON_parse prose_text
          = Inl (Error ''Invalid JSON response from AI'')"
    by (simp add: validateRecommendationResponse_def parse_prose)
  with parse_prose validate_one_plan show ?thesis
    by (intro conjI)
qed

text \<open>
  C3 (amended). The validator of the conversation handler attempts the direct parse only:
  every text the parser rejects yields the error \<^verbatim>\<open>Invalid JSON response from AI\<close>, also
  when a valid object is embedded in it. The search for an embedded object belongs to the
  geographic handler, which works on the trimmed completion. When that text holds a fenced
  block, that is three backquotes, optionally \<^verbatim>\<open>json\<close>, optional whitespace, \<open>{ mid }\<close>,
  optional whitespace and three backquotes, with no backquote before the block and no closing
  brace after it, the text handed to the parser is \<open>{ mid }\<close>. When the trimmed completion
  has no backquote and reads \<open>pre { mid } post\<close> with no opening brace in \<open>pre\<close> and no
  closing brace in \<open>post\<close>, the text handed to the parser is \<open>{ mid }\<close> too, from the first
  opening brace to the last closing brace. That handler answers with its parse failure
  exactly when the parser rejects the text handed to it.
\<close>

theorem C3_recovery:
  "(parse raw = None \<longrightarrow>
      validateRecommendationResponse parse raw = Inl (Error ''Invalid JSON response from AI''))
   \<and> (\<forall>pre tag ws1 mid ws2 post.
         trim completion
           = pre @ ''```'' @ tag @ ws1 @ CHR ''{'' # mid @ CHR ''}'' # ws2 @ ''```'' @ post
         \<and> CHR 0x60 \<notin> set pre \<and> (tag = [] \<or> tag = ''json'')
         \<and> list_all is_space ws1 \<and> list_all is_space ws2 \<and> CHR ''}'' \<notin> set post \<longrightarrow>
         extract_json (trim completion) = CHR ''{'' # mid @ [CHR ''}''])
   \<and> (\<forall>pre mid post.
         trim completion = pre @ CHR ''{'' # mid @ CHR ''}'' # post
         \<and> CHR ''{'' \<notin> set pre \<and> CHR ''}'' \<notin> set post \<and> CHR 0x60 \<notin> set (trim completion) \<longrightarrow>
         extract_json (trim completion) = CHR ''{'' # mid @ [CHR ''}''])
   \<and> (map_POST_response parse now completion
         = Reply 500 (MapErrorBody ''Failed to generate valid recommendations. Please try again.'')
       \<longleftrightarrow> parse (extract_json (trim completion)) = None)"
proof (intro conjI allI impI)
  assume "parse raw = None"
  then show "validateRecommendationResponse parse raw = Inl (Error ''Invalid JSON response from AI'')"
    by (simp add: validateRecommendationResponse_def)
next
  fix pre tag ws1 mid ws2 post
  assume h: "trim completion
           = pre @ ''```'' @ tag @ ws1 @ CHR ''{'' # mid @ CHR ''}'' # ws2 @ ''```'' @ post
         \<and> CHR 0x60 \<notin> set pre \<and> (tag = [] \<or> tag = ''json'')
         \<and> list_all is_space ws1 \<and> list_all is_space ws2 \<and> CHR ''}'' \<notin> set post"
  show "extract_json (trim completion) = CHR ''{'' # mid @ [CHR ''}'']"
    by (rule extract_json_fenced [of "trim completion" pre tag ws1 mid ws2 post])
       (use h in blast)+
next
  fix pre mid post
  assume "trim completion = pre @ CHR ''{'' # mid @ CHR ''}'' # post
         \<and> CHR ''{'' \<notin> set pre \<and> CHR ''}'' \<notin> set post \<and> CHR 0x60 \<notin> set (trim completion)"
  then show "extract_json (trim completion) = CHR ''{'' # mid @ [CHR ''}'']"
    using extract_json_braces [of "trim completion" pre mid post] by blast
next
  show "map_POST_response parse now completion
         = Reply 500 (MapErrorBody ''Failed to generate valid recommendations. Please try again.'')
       \<longleftrightarrow> parse (extract_json (trim completion)) = None"
    by (rule parse_failure_reply_iff)
qed

text \<open>
  The amended C3 at the one-plan object between two sentences, bare and in a fenced block:
  the validator rejects both texts, the geographic handler's extraction recovers the object
  from both.
\<close>

theorem C3_recovery_witness:
  "validateRecommendationResponse JSON_parse prose_text
     = Inl (Error ''Invalid JSON response from AI'')
   \<and> extract_json (trim prose_text) = one_plan_text
   \<and> validateRecommendationResponse JSON_parse fenced_plan_text
     = Inl (Error ''Invalid JSON response from AI'')
   \<and> extract_json (trim fenced_plan_text) = one_plan_text"
proof -
  have h: "trim prose_text
             = ''Here are your plans: '' @ CHR ''{'' # one_plan_inner @ CHR ''}'' # '' Enjoy your trip!''
           \<and> CHR ''{'' \<notin> set ''Here are your plans: ''
           \<and> CHR ''}'' \<notin> set '' Enjoy your trip!''
           \<and> CHR 0x60 \<notin> set (trim prose_text)"
    using trim_prose prose_no_fence by simp
  note c = C3_recovery [of JSON_parse prose_text prose_text clock]
  from c parse_prose
  have v: "validateRecommendationResponse JSON_parse prose_text
             = Inl (Error ''Invalid JSON response from AI'')"
    by blast
  from c h have e: "extract_json (trim prose_text) = CHR ''{'' # one_plan_inner @ [CHR ''}'']"
    by blast
  have h': "trim fenced_plan_text
             = ''Here are your plans: '' @ ''```'' @ ''json'' @ [CHR 0x0A]
               @ CHR ''{'' # one_plan_inner @ CHR ''}'' # [CHR 0x0A] @ ''```'' @ '' Enjoy your trip!''
           \<and> CHR 0x60 \<notin> set ''Here are your plans: ''
           \<and> (''json'' = [] \<or> ''json'' = ''json'')
           \<and> list_all is_space [CHR 0x0A] \<and> list_all is_space [CHR 0x0A]
           \<and> CHR ''}'' \<notin> set '' Enjoy your trip!''"
    using trim_fenced_plan by (simp add: is_space_def)
  note c' = C3_recovery [of JSON_parse fenced_plan_text fenced_plan_text clock]
  from c' parse_fenced_plan
  have v': "validateRecommendationResponse JSON_parse fenced_plan_text
             = Inl (Error ''Invalid JSON response from AI'')"
    by blast
  from c' h' have e': "extract_json (trim fenced_plan_text) = CHR ''{'' # one_plan_inner @ [CHR ''}'']"
    by blast
  from v e v' e' show ?thesis
    by (simp add: one_plan_text_def)
qed

subsection \<open>C4: schema failures\<close>

text \<open>
  C4, as stated, at a completion with four plans whose fourth has no destination: the
  validator drops the fourth plan before it checks the plans, and succeeds with the first
  three.
\<close>

theorem C4_fourth_plan_ignored:
  "JSON_parse four_plans_text = Some four_plans_value
   \<and> get four_plans_value ''plans''
       = Some (JArr [plan_value ''A'', plan_value ''B'', plan_value ''C'',
                     JObj [(''country'', JStr ''Canada'')]])
   \<and> get (JObj [(''country'', JStr ''Canada'')]) ''destination'' = None
   \<and> validateRecommendationResponse JSON_parse four_plans_text = Inr three_plans_value"
  by (simp add: parse_four_plans validate_four_plans) (simp add: four_plans_value_def)

text \<open>
  C4 (amended): for every text that parses, the validator fails with a \<^verbatim>\<open>TypeError\<close> when
  the value is \<^verbatim>\<open>null\<close>; otherwise with \<^verbatim>\<open>Missing or invalid summary field\<close> when the summary
  is not a non-empty string; otherwise with \<^verbatim>\<open>Plans must be a non-empty array\<close> when plans is
  not a non-empty array; otherwise, when one of the first three plans lacks a required
  field, at the first such plan: with a \<^verbatim>\<open>TypeError\<close> that names no plan when that plan is
  \<^verbatim>\<open>null\<close>, and else with that plan's error, whose message \<^verbatim>\<open>Plan N missing ...\<close> carries
  the plan's position counted from 1, whatever the later plans are. In each of these cases
  the result is an error and no value is returned. In every other case, that is when the
  summary is a non-empty string, plans is a non-empty array and its first three plans have
  their required fields, the validator succeeds and returns the parsed value with at most
  its first three plans: a plan after the third cannot cause a failure. The validator
  returns a value in no other case.
\<close>

theorem C4_schema_failures:
  assumes "parse raw = Some parsed"
  shows "(parsed = JNull \<longrightarrow>
            validateRecommendationResponse parse raw = Inl (cannot_read ''summary''))
       \<and> (parsed \<noteq> JNull \<and> \<not> summary_ok parsed \<longrightarrow>
            validateRecommendationResponse parse raw
              = Inl (Error ''Missing or invalid summary field''))
       \<and> (summary_ok parsed \<and> \<not> nonempty_array (get parsed ''plans'') \<longrightarrow>
            validateRecommendationResponse parse raw
              = Inl (Error ''Plans must be a non-empty array''))
       \<and> (\<forall>ps i. summary_ok parsed \<and> get parsed ''plans'' = Some (JArr ps)
              \<and> i < length ps \<and> i < 3 \<and> (\<forall>j < i. required_fields (ps ! j))
              \<and> \<not> required_fields (ps ! i) \<longrightarrow>
            (ps ! i = JNull \<longrightarrow>
               validateRecommendationResponse parse raw = Inl (cannot_read ''destination''))
            \<and> (ps ! i \<noteq> JNull \<longrightarrow>
               (\<exists>what \<in> set [''destination or country'', ''duration information'',
                              ''budget information'', ''highlights'', ''activities''].
                  validatePlan i (ps ! i) = Some (plan_error i what)
                  \<and> validateRecommendationResponse parse raw = Inl (plan_error i what))))
       \<and> (\<forall>ps. summary_ok parsed \<and> get parsed ''plans'' = Some (JArr ps) \<and> ps \<noteq> []
              \<and> (\<forall>p \<in> set (take 3 ps). required_fields p) \<longrightarrow>
            validateRecommendationResponse parse raw
              = Inr (if 3 < length ps then set_plans parsed (take 3 ps) else parsed))
       \<and> (\<forall>r. validateRecommendationResponse parse raw = Inr r \<longrightarrow>
            summary_ok parsed
            \<and> (\<exists>ps. get parsed ''plans'' = Some (JArr ps) \<and> ps \<noteq> []
                   \<and> (\<forall>p \<in> set (take 3 ps). required_fields p)))"
proof -
  have V: "validateRecommendationResponse parse raw = validateParsed parsed"
    using assms by (simp add: validateRecommendationResponse_def)
  have null: "parsed = JNull \<longrightarrow> validateParsed parsed = Inl (cannot_read ''summary'')"
    by (simp add: validateParsed_def)
  have summary: "parsed \<noteq> JNull \<and> \<not> summary_ok parsed \<longrightarrow>
      validateParsed parsed = Inl (Error ''Missing or invalid summary field'')"
    by (simp add: validateParsed_def)
  have sn: "summary_ok parsed \<Longrightarrow> parsed \<noteq> JNull"
    by (auto simp: summary_ok_def)
  have plans: "summary_ok parsed \<and> \<not> nonempty_array (get parsed ''plans'') \<longrightarrow>
      validateParsed parsed = Inl (Error ''Plans must be a non-empty array'')"
    using sn by (auto simp: validateParsed_def split: option.splits jsval.splits)
  have first: "(ps ! i = JNull \<longrightarrow> validateParsed parsed = Inl (cannot_read ''destination''))
            \<and> (ps ! i \<noteq> JNull \<longrightarrow>
               (\<exists>what \<in> set [''destination or country'', ''duration information'',
                              ''budget information'', ''highlights'', ''activities''].
                  validatePlan i (ps ! i) = Some (plan_error i what)
                  \<and> validateParsed parsed = Inl (plan_error i what)))"
    if h: "summary_ok parsed \<and> get parsed ''plans'' = Some (JArr ps)
              \<and> i < length ps \<and> i < 3 \<and> (\<forall>j < i. required_fields (ps ! j))
              \<and> \<not> required_fields (ps ! i)" for ps i
  proof -
    let ?qs = "if 3 < length ps then take 3 ps else ps"
    from h have i: "i < length ?qs" and q: "?qs ! i = ps ! i"
      and before: "\<forall>j < i. required_fields (?qs ! j)"
      by auto
    from h q have bad: "\<not> required_fields (?qs ! i)" by simp
    have loop: "forEach_plan 0 ?qs = validatePlan i (ps ! i)"
      using forEach_plan_first_failure [OF i before bad, of 0] q by simp
    from h have ne: "ps \<noteq> []" by auto
    from h have nn: "parsed \<noteq> JNull" by (simp add: sn)
    have res: "validateParsed parsed = Inl e" if "validatePlan i (ps ! i) = Some e" for e
      using h nn ne loop that by (simp add: validateParsed_def Let_def)
    have a: "validateParsed parsed = Inl (cannot_read ''destination'')" if "ps ! i = JNull"
      using res [of "cannot_read ''destination''"] that by (simp add: validatePlan_def)
    have b: "\<exists>what \<in> set [''destination or country'', ''duration information'',
                              ''budget information'', ''highlights'', ''activities''].
                  validatePlan i (ps ! i) = Some (plan_error i what)
                  \<and> validateParsed parsed = Inl (plan_error i what)" if "ps ! i \<noteq> JNull"
    proof -
      from h that obtain what where
        w: "what \<in> set [''destination or country'', ''duration information'',
                        ''budget information'', ''highlights'', ''activities'']"
        and e: "validatePlan i (ps ! i) = Some (plan_error i what)"
        using validatePlan_error [of "ps ! i" i] by blast
      from res [OF e] w e show ?thesis by blast
    qed
    from a b show ?thesis by blast
  qed
  have ok: "validateParsed parsed
              = Inr (if 3 < length ps then set_plans parsed (take 3 ps) else parsed)"
    if h: "summary_ok parsed \<and> get parsed ''plans'' = Some (JArr ps) \<and> ps \<noteq> []
              \<and> (\<forall>p \<in> set (take 3 ps). required_fields p)" for ps
  proof -
    from h have nn: "parsed \<noteq> JNull" by (simp add: sn)
    from h have loop: "forEach_plan 0 (take 3 ps) = None"
      by (simp add: forEach_plan_ok)
    show ?thesis
    proof (cases "3 < length ps")
      case True
      with h nn loop show ?thesis
        by (simp add: validateParsed_def Let_def)
    next
      case False
      then have "take 3 ps = ps"
        by simp
      with loop have "forEach_plan 0 ps = None"
        by simp
      with h nn False show ?thesis
        by (simp add: validateParsed_def Let_def)
    qed
  qed
  have only: "summary_ok parsed
            \<and> (\<exists>ps. get parsed ''plans'' = Some (JArr ps) \<and> ps \<noteq> []
                   \<and> (\<forall>p \<in> set (take 3 ps). required_fields p))"
    if "validateParsed parsed = Inr r" for r
    using validateParsed_Inr [OF that] by blast
  from null summary plans first ok only show ?thesis
    unfolding V by blast
qed

text \<open>
  The amended C4 at three completions: the second plan has no duration; the first plan is
  \<^verbatim>\<open>null\<close> and the second has no country; the fourth of four plans has no destination.
\<close>

theorem C4_schema_failures_witness:
  "validateRecommendationResponse JSON_parse bad_second_text
     = Inl (Error ''Plan 2 missing duration information'')
   \<and> validateRecommendationResponse JSON_parse null_first_text
     = Inl (cannot_read ''destination'')
   \<and> validateRecommendationResponse JSON_parse four_plans_text = Inr three_plans_value"
proof -
  let ?bad = "JObj [(''destination'', JStr ''B''), (''country'', JStr ''Canada'')]"
  let ?ps = "[plan_value ''A'', ?bad]"
  have h: "summary_ok bad_second_value \<and> get bad_second_value ''plans'' = Some (JArr ?ps)
           \<and> 1 < length ?ps \<and> (1::nat) < 3 \<and> (\<forall>j < 1. required_fields (?ps ! j))
           \<and> \<not> required_fields (?ps ! 1)"
    by (simp add: summary_ok_def bad_second_value_def required_fields_plan_value)
       (simp add: required_fields_def)
  have n: "?ps ! 1 \<noteq> JNull"
    by simp
  have v: "validatePlan 1 ?bad = Some (plan_error 1 ''duration information'')"
    by (simp add: validatePlan_def)
  have m: "plan_error 1 ''duration information'' = Error ''Plan 2 missing duration information''"
    by (simp add: plan_error_def string_of_nat.simps)
  from C4_schema_failures [where parse = JSON_parse and raw = bad_second_text,
      OF parse_bad_second] h n
  obtain what where "validatePlan 1 (?ps ! 1) = Some (plan_error 1 what)"
    and "validateRecommendationResponse JSON_parse bad_second_text = Inl (plan_error 1 what)"
    by blast
  with v m have a: "validateRecommendationResponse JSON_parse bad_second_text
     = Inl (Error ''Plan 2 missing duration information'')"
    by simp
  let ?qs = "[JNull, JObj [(''destination'', JStr ''B'')]]"
  have h': "summary_ok null_first_value \<and> get null_first_value ''plans'' = Some (JArr ?qs)
           \<and> 0 < length ?qs \<and> (0::nat) < 3 \<and> (\<forall>j < 0. required_fields (?qs ! j))
           \<and> \<not> required_fields (?qs ! 0)"
    by (simp add: summary_ok_def null_first_value_def required_fields_def)
  have n': "?qs ! 0 = JNull"
    by simp
  from C4_schema_failures [where parse = JSON_parse and raw = null_first_text,
      OF parse_null_first] h' n'
  have b: "validateRecommendationResponse JSON_parse null_first_text
     = Inl (cannot_read ''destination'')"
    by blast
  let ?rs = "[plan_value ''A'', plan_value ''B'', plan_value ''C'',
              JObj [(''country'', JStr ''Canada'')]]"
  have h'': "summary_ok four_plans_value \<and> get four_plans_value ''plans'' = Some (JArr ?rs)
           \<and> ?rs \<noteq> [] \<and> (\<forall>p \<in> set (take 3 ?rs). required_fields p)"
    by (simp add: summary_ok_def four_plans_value_def required_fields_plan_value)
  have t: "(if 3 < length ?rs then set_plans four_plans_value (take 3 ?rs) else four_plans_value)
             = three_plans_value"
    by (simp add: four_plans_value_def three_plans_value_def)
  from C4_schema_failures [where parse = JSON_parse and raw = four_plans_text,
      OF parse_four_plans] h''
  have "validateRecommendationResponse JSON_parse four_plans_text
     = Inr (if 3 < length ?rs then set_plans four_plans_value (take 3 ?rs) else four_plans_value)"
    by blast
  with t have c: "validateRecommendationResponse JSON_parse four_plans_text = Inr three_plans_value"
    by simp
  from a b c show ?thesis by simp
qed

subsection \<open>C5: more than three plans\<close>

text \<open>
  C5, as stated, at a completion with a summary and four empty plans: the plans array has
  more than three entries, and the validator does not return the first three; it fails at
  the first plan.
\<close>

theorem C5_invalid_plans_rejected:
  "JSON_parse four_empty_text = Some four_empty_value
   \<and> get four_empty_value ''plans'' = Some (JArr [JObj [], JObj [], JObj [], JObj []])
   \<and> 3 < length [JObj [], JObj [], JObj [], JObj []]
   \<and> validateRecommendationResponse JSON_parse four_empty_text
       = Inl (Error ''Plan 1 missing destination or country'')"
  by (simp add: parse_four_empty validateRecommendationResponse_def)
     (simp add: four_empty_value_def validateParsed_def summary_ok_def validatePlan_def
        plan_error_def string_of_nat.simps)

text \<open>
  C5 (amended): for every parseable text whose plans array has more than three entries, and whose
  summary and first three plans pass the validator's checks, the validator succeeds and
  returns the parsed object with its plans replaced by exactly the first three, in their
  order and unchanged; every other property of the object is unchanged. The plans after the
  third are not inspected.
\<close>

theorem C5_truncation:
  assumes "parse raw = Some parsed"
    and "get parsed ''plans'' = Some (JArr ps)"
    and "3 < length ps"
    and "summary_ok parsed"
    and "\<forall>p \<in> set (take 3 ps). required_fields p"
  shows "validateRecommendationResponse parse raw = Inr (set_plans parsed (take 3 ps))
         \<and> get (set_plans parsed (take 3 ps)) ''plans'' = Some (JArr (take 3 ps))
         \<and> (\<forall>k. k \<noteq> ''plans'' \<longrightarrow> get (set_plans parsed (take 3 ps)) k = get parsed k)"
proof -
  from assms(2) have nn: "parsed \<noteq> JNull" by auto
  from assms(3) have ne: "ps \<noteq> []" by auto
  have "validateParsed parsed = Inr (set_plans parsed (take 3 ps))"
    using assms nn ne by (simp add: validateParsed_def forEach_plan_ok Let_def)
  then show ?thesis
    using assms(1,2) by (simp add: validateRecommendationResponse_def get_set_plans)
qed

text \<open>
  The amended C5 at the completion with four plans, the fourth of which lacks its
  destination.
\<close>

theorem C5_truncation_witness:
  "validateRecommendationResponse JSON_parse four_plans_text = Inr three_plans_value
   \<and> get three_plans_value ''plans''
       = Some (JArr [plan_value ''A'', plan_value ''B'', plan_value ''C''])"
proof -
  have g: "get four_plans_value ''plans''
        = Some (JArr [plan_value ''A'', plan_value ''B'', plan_value ''C'',
                      JObj [(''country'', JStr ''Canada'')]])"
    by (simp add: four_plans_value_def)
  have l: "3 < length [plan_value ''A'', plan_value ''B'', plan_value ''C'',
                       JObj [(''country'', JStr ''Canada'')]]"
    by simp
  have s: "summary_ok four_plans_value"
    by (simp add: summary_ok_def four_plans_value_def)
  have f: "\<forall>p \<in> set (take 3 [plan_value ''A'', plan_value ''B'', plan_value ''C'',
                              JObj [(''country'', JStr ''Canada'')]]). required_fields p"
    by (simp add: required_fields_plan_value)
  have t: "set_plans four_plans_value
             (take 3 [plan_value ''A'', plan_value ''B'', plan_value ''C'',
                      JObj [(''country'', JStr ''Canada'')]]) = three_plans_value"
    by (simp add: four_plans_value_def three_plans_value_def)
  show ?thesis
    using C5_truncation [where parse = JSON_parse and raw = four_plans_text,
        OF parse_four_plans g l s f]
    unfolding t by simp
qed

subsection \<open>C6: a validation failure in the recommending phase\<close>

text \<open>
  C6: when the request passes the handler's checks, the analysis says to generate
  recommendations, the gateway returns a completion and the validator fails on it with the
  exception \<open>e\<close>, the handler answers with status 500 and the error body whose code is
  \<^verbatim>\<open>VALIDATION_ERROR\<close>, whose message is that of \<open>e\<close> and whose \<^verbatim>\<open>retryable\<close> flag is true:
  neither a message body holding the completion nor a body of plans. One request went to
  the gateway.
\<close>

theorem C6_validation_failure_surfaced:
  assumes "get body ''messages'' = Some (JArr msgs)"
    and "validate_messages msgs = Inr None"
    and "shouldGenerate (shouldGenerateRecommendations (map toMessage msgs))"
    and "chat (chat_request (shouldGenerateRecommendations (map toMessage msgs)) msgs)
           = Inr completion"
    and "validateRecommendationResponse parse completion = Inl e"
  shows "assistant_POST parse chat body
           = (Reply 500 (ErrorBody \<lparr> error = ''Invalid response format'',
                message = exn_message e, code = ''VALIDATION_ERROR'', retryable = True \<rparr>),
              [chat_request (shouldGenerateRecommendations (map toMessage msgs)) msgs])"
proof -
  from assms(1) have "body \<noteq> JNull" by auto
  with assms show ?thesis
    by (simp add: assistant_POST_def Let_def validation_error_def)
qed

text \<open>
  C6 for a user who names destination, month and budget, and a gateway that answers with a
  refusal in prose.
\<close>

theorem C6_validation_failure_surfaced_witness:
  "assistant_POST JSON_parse refusing_gateway japan_body
     = (Reply 500 (ErrorBody \<lparr> error = ''Invalid response format'',
          message = ''Invalid JSON response from AI'', code = ''VALIDATION_ERROR'',
          retryable = True \<rparr>),
        [\<lparr> systemPrompt = RecommendationPrompt,
           history = [JObj [(''role'', JStr ''user''),
                            (''content'',
                             JStr ''I want to visit Japan in March with a budget of $3000'')]],
           temperature = 7 / 10, maxTokens = 2000, format = json_format \<rparr>])"
proof -
  let ?msgs = "[JObj [(''role'', JStr ''user''),
                      (''content'', JStr ''I want to visit Japan in March with a budget of $3000'')]]"
  have g: "get japan_body ''messages'' = Some (JArr ?msgs)"
    by (simp add: japan_body_def)
  have v: "validate_messages ?msgs = Inr None"
    by simp
  have a: "shouldGenerateRecommendations (map toMessage ?msgs)
             = \<lparr> shouldGenerate = True, missingInfo = [] \<rparr>"
    using japan_analysis by (simp add: toMessage_def)
  have s: "shouldGenerate (shouldGenerateRecommendations (map toMessage ?msgs))"
    by (simp only: a) simp
  have c: "refusing_gateway (chat_request (shouldGenerateRecommendations (map toMessage ?msgs)) ?msgs)
             = Inr refusal"
    by (simp add: refusing_gateway_def)
  have r: "chat_request (shouldGenerateRecommendations (map toMessage ?msgs)) ?msgs
             = \<lparr> systemPrompt = RecommendationPrompt, history = ?msgs,
                 temperature = 7 / 10, maxTokens = 2000, format = json_format \<rparr>"
    by (simp only: a) (simp add: chat_request_def)
  from C6_validation_failure_surfaced [where parse = JSON_parse and chat = refusing_gateway,
      OF g v s c refusal_rejected]
  show ?thesis
    by (simp only: r exn_message.simps)
qed

subsection \<open>C7: plan identifiers\<close>

text \<open>
  C7, as stated, at the completion with one valid plan that has no \<^verbatim>\<open>id\<close>: the validator of
  the conversation handler returns the plan as parsed, without an \<^verbatim>\<open>id\<close>.
\<close>

theorem C7_validator_attaches_no_id:
  "validateRecommendationResponse JSON_parse one_plan_text = Inr one_plan_value
   \<and> get one_plan_value ''plans'' = Some (JArr [plan_value ''A''])
   \<and> get (plan_value ''A'') ''id'' = None"
  by (simp add: validate_one_plan) (simp add: one_plan_value_def plan_value_def)

text \<open>
  C7 (amended): identifiers are attached by the geographic handler only. The validator of
  the conversation handler returns the parsed plans themselves (the first three of them). When
  the parsed response of the geographic handler has a plans array without \<^verbatim>\<open>null\<close>, that
  handler returns as many plans as it received, each with a truthy \<^verbatim>\<open>id\<close>: the plan's own
  when that is truthy, otherwise the generated \<^verbatim>\<open>map-plan-<Date.now()>-<index>\<close>.
\<close>

theorem C7_geographic_ids:
  "(validateRecommendationResponse parse raw = Inr r \<longrightarrow>
      (\<exists>parsed ps. parse raw = Some parsed \<and> get parsed ''plans'' = Some (JArr ps)
         \<and> get r ''plans'' = Some (JArr (take 3 ps))))
   \<and> (parse (extract_json (trim completion)) = Some parsedResponse
        \<and> get parsedResponse ''plans'' = Some (JArr plans) \<and> JNull \<notin> set plans \<longrightarrow>
      (\<exists>travelPlans summary.
         map_POST_response parse now completion
           = Reply 200 (PlansBody (Some (JArr travelPlans)) summary)
         \<and> length travelPlans = length plans
         \<and> (\<forall>i < length plans.
              get (travelPlans ! i) ''id'' = Some (id_or_generated now i (plans ! i))
              \<and> truthyo (get (travelPlans ! i) ''id'')
              \<and> (truthyo (get (plans ! i) ''id'') \<longrightarrow>
                   get (travelPlans ! i) ''id'' = get (plans ! i) ''id'')
              \<and> (\<not> truthyo (get (plans ! i) ''id'') \<longrightarrow>
                   get (travelPlans ! i) ''id'' = Some (generated_id now i)))))"
proof (intro conjI impI)
  assume ok: "validateRecommendationResponse parse raw = Inr r"
  then obtain parsed where p: "parse raw = Some parsed" and v: "validateParsed parsed = Inr r"
    by (auto simp: validateRecommendationResponse_def split: option.splits)
  from validateParsed_Inr [OF v] obtain ps where
    ps: "get parsed ''plans'' = Some (JArr ps)"
    and r: "r = (if 3 < length ps then set_plans parsed (take 3 ps) else parsed)"
    by blast
  have "get r ''plans'' = Some (JArr (take 3 ps))"
    using ps r by (simp add: get_set_plans)
  with p ps show "\<exists>parsed ps. parse raw = Some parsed \<and> get parsed ''plans'' = Some (JArr ps)
         \<and> get r ''plans'' = Some (JArr (take 3 ps))"
    by blast
next
  assume h: "parse (extract_json (trim completion)) = Some parsedResponse
        \<and> get parsedResponse ''plans'' = Some (JArr plans) \<and> JNull \<notin> set plans"
  then have p: "parse (extract_json (trim completion)) = Some parsedResponse"
    and g: "get parsedResponse ''plans'' = Some (JArr plans)" and n: "JNull \<notin> set plans"
    by simp_all
  from map_plans_Inr [OF n, of now 0] obtain qs where
    qs: "map_plans now 0 plans = Inr qs" "length qs = length plans"
    "\<forall>k < length plans. qs ! k = attach_id now k (plans ! k)"
    by auto
  have ids: "\<forall>i < length plans.
          get (qs ! i) ''id'' = Some (id_or_generated now i (plans ! i))
          \<and> truthyo (get (qs ! i) ''id'')
          \<and> (truthyo (get (plans ! i) ''id'') \<longrightarrow> get (qs ! i) ''id'' = get (plans ! i) ''id'')
          \<and> (\<not> truthyo (get (plans ! i) ''id'') \<longrightarrow>
               get (qs ! i) ''id'' = Some (generated_id now i))"
    using qs(3)
    by (auto simp: get_attach_id truthy_id_or_generated truthy_generated_id
          id_or_generated_def split: option.splits)
  show "\<exists>travelPlans summary.
         map_POST_response parse now completion
           = Reply 200 (PlansBody (Some (JArr travelPlans)) summary)
         \<and> length travelPlans = length plans
         \<and> (\<forall>i < length plans.
              get (travelPlans ! i) ''id'' = Some (id_or_generated now i (plans ! i))
              \<and> truthyo (get (travelPlans ! i) ''id'')
              \<and> (truthyo (get (plans ! i) ''id'') \<longrightarrow>
                   get (travelPlans ! i) ''id'' = get (plans ! i) ''id'')
              \<and> (\<not> truthyo (get (plans ! i) ''id'') \<longrightarrow>
                   get (travelPlans ! i) ''id'' = Some (generated_id now i)))"
  proof (intro exI conjI)
    show "map_POST_response parse now completion
            = Reply 200 (PlansBody (Some (JArr qs))
                (Some (case get parsedResponse ''summary'' of
                         None \<Rightarrow> default_summary
                       | Some v \<Rightarrow> if truthy v then v else default_summary)))"
      by (rule map_POST_response_plans [where parse = parse and completion = completion,
            OF p g qs(1)])
    show "length qs = length plans"
      by (rule qs(2))
    show "\<forall>i < length plans.
          get (qs ! i) ''id'' = Some (id_or_generated now i (plans ! i))
          \<and> truthyo (get (qs ! i) ''id'')
          \<and> (truthyo (get (plans ! i) ''id'') \<longrightarrow> get (qs ! i) ''id'' = get (plans ! i) ''id'')
          \<and> (\<not> truthyo (get (plans ! i) ''id'') \<longrightarrow>
               get (qs ! i) ''id'' = Some (generated_id now i))"
      by (rule ids)
  qed
qed

text \<open>
  The amended C7 at the one-plan object between two sentences.
\<close>

theorem C7_geographic_ids_witness:
  "\<exists>travelPlans summary.
     map_POST_response JSON_parse clock prose_text
       = Reply 200 (PlansBody (Some (JArr travelPlans)) summary)
     \<and> length travelPlans = 1
     \<and> get (travelPlans ! 0) ''id'' = Some (JStr ''map-plan-1700000000000-0'')"
proof -
  have h: "JSON_parse (extract_json (trim prose_text)) = Some one_plan_value
           \<and> get one_plan_value ''plans'' = Some (JArr [plan_value ''A''])
           \<and> JNull \<notin> set [plan_value ''A'']"
    by (simp add: extract_prose parse_one_plan) (simp add: one_plan_value_def plan_value_def)
  have i: "generated_id clock 0 = JStr ''map-plan-1700000000000-0''"
    by (simp add: generated_id_def clock_def string_of_nat.simps)
  have m: "\<not> truthyo (get ([plan_value ''A''] ! 0) ''id'')"
    by (simp add: plan_value_def)
  from C7_geographic_ids [where parse = JSON_parse and completion = prose_text
      and now = clock and parsedResponse = one_plan_value and plans = "[plan_value ''A'']"] h
  obtain travelPlans summary where
    a: "map_POST_response JSON_parse clock prose_text
          = Reply 200 (PlansBody (Some (JArr travelPlans)) summary)"
    and b: "length travelPlans = length [plan_value ''A'']"
    and c: "\<forall>i < length [plan_value ''A''].
              (\<not> truthyo (get ([plan_value ''A''] ! i) ''id'') \<longrightarrow>
                 get (travelPlans ! i) ''id'' = Some (generated_id clock i))"
    by blast
  from c m i have "get (travelPlans ! 0) ''id'' = Some (JStr ''map-plan-1700000000000-0'')"
    by simp
  with a b show ?thesis
    by auto
qed

subsection \<open>C8: the gateway's classification of error responses\<close>

text \<open>
  C8, as stated, at a response with status 400: the gateway throws \<^verbatim>\<open>Bad request: ...\<close>,
  which the conversation handler reports as \<^verbatim>\<open>INTERNAL_ERROR\<close> with \<^verbatim>\<open>retryable\<close> true.
\<close>

theorem C8_bad_request_retryable:
  "handleErrorResponse bad_request_400 = Error ''Bad request: max_tokens is too large''
   \<and> assistant_catch (handleErrorResponse bad_request_400)
     = Reply 500 (ErrorBody \<lparr> error = ''Internal server error'',
         message = ''An unexpected error occurred. Please try again.'',
         code = ''INTERNAL_ERROR'', retryable = True \<rparr>)"
  by (simp add: handleErrorResponse_def bad_request_400_def errorMessage_def errorCode_def
        assistant_catch_def)

text \<open>
  C8 (amended): \<open>handleErrorResponse\<close> throws an error whose message depends on the body
  and the status. When the body is not JSON the message is
  \<^verbatim>\<open>OpenRouter API error: status statusText\<close>, for every status; when the body is \<^verbatim>\<open>null\<close>
  the error is the \<^verbatim>\<open>TypeError\<close> of reading the body, for every status. For any other
  JSON body, 401 gives the API key message, which the conversation handler reports as
  \<^verbatim>\<open>CONFIG_ERROR\<close>, not retryable; 429 gives the rate limit message, reported as
  \<^verbatim>\<open>RATE_LIMIT\<close>, retryable; 400 gives \<^verbatim>\<open>Bad request: \<close> followed by the upstream message;
  500, 502 and 503 give the service error message around the upstream message; every other
  status gives the generic \<^verbatim>\<open>OpenRouter API error (code): \<close> followed by the upstream
  message. The gateway sets no retryable flag. The conversation handler classifies an error
  by its message alone: it reports \<^verbatim>\<open>CONFIG_ERROR\<close>, not retryable, exactly when the message
  contains \<^verbatim>\<open>API key\<close>; otherwise \<^verbatim>\<open>RATE_LIMIT\<close> when it contains \<^verbatim>\<open>Rate limit\<close>; otherwise
  \<^verbatim>\<open>NETWORK_ERROR\<close> when it contains \<^verbatim>\<open>network\<close> or \<^verbatim>\<open>fetch\<close>; otherwise
  \<^verbatim>\<open>INTERNAL_ERROR\<close>; the last three are retryable. So an error for a status other than 401
  is reported as retryable unless the upstream message contains \<^verbatim>\<open>API key\<close>.
\<close>

theorem C8_status_classification:
  "(json response = NotJSON \<longrightarrow>
      handleErrorResponse response
        = Error (''OpenRouter API error: '' @ string_of_nat (status response) @ '' ''
                 @ statusText response))
   \<and> (json response = JSONNull \<longrightarrow> handleErrorResponse response = cannot_read ''error'')
   \<and> (\<forall>errorData. json response = JSONBody errorData \<longrightarrow>
         (status response = 401 \<longrightarrow>
            handleErrorResponse response
              = Error ''Invalid OpenRouter API key. Please check your OPENROUTER_API_KEY environment variable.''
            \<and> assistant_catch (handleErrorResponse response)
              = Reply 500 (ErrorBody \<lparr> error = ''Configuration error'',
                  message = ''The service is not properly configured. Please contact support.'',
                  code = ''CONFIG_ERROR'', retryable = False \<rparr>))
         \<and> (status response = 429 \<longrightarrow>
            handleErrorResponse response = Error ''Rate limit exceeded. Please try again later.''
            \<and> assistant_catch (handleErrorResponse response)
              = Reply 429 (ErrorBody \<lparr> error = ''Rate limit exceeded'',
                  message = ''Too many requests. Please wait a moment and try again.'',
                  code = ''RATE_LIMIT'', retryable = True \<rparr>))
         \<and> (status response = 400 \<longrightarrow>
            handleErrorResponse response = Error (''Bad request: '' @ errorMessage errorData))
         \<and> (status response \<in> {500, 502, 503} \<longrightarrow>
            handleErrorResponse response
              = Error (''OpenRouter service error: '' @ errorMessage errorData
                       @ ''. Please try again.''))
         \<and> (status response \<notin> {400, 401, 429, 500, 502, 503} \<longrightarrow>
            handleErrorResponse response
              = Error (''OpenRouter API error ('' @ errorCode errorData (status response)
                       @ ''): '' @ errorMessage errorData)))
   \<and> (\<forall>e. reply_retryable (assistant_catch e)
             = Some (\<not> str_includes (exn_message e) ''API key''))
   \<and> (\<forall>e. str_includes (exn_message e) ''API key'' \<longrightarrow>
         assistant_catch e
           = Reply 500 (ErrorBody \<lparr> error = ''Configuration error'',
               message = ''The service is not properly configured. Please contact support.'',
               code = ''CONFIG_ERROR'', retryable = False \<rparr>))
   \<and> (\<forall>e. \<not> str_includes (exn_message e) ''API key''
           \<and> str_includes (exn_message e) ''Rate limit'' \<longrightarrow>
         assistant_catch e
           = Reply 429 (ErrorBody \<lparr> error = ''Rate limit exceeded'',
               message = ''Too many requests. Please wait a moment and try again.'',
               code = ''RATE_LIMIT'', retryable = True \<rparr>))
   \<and> (\<forall>e. \<not> str_includes (exn_message e) ''API key''
           \<and> \<not> str_includes (exn_message e) ''Rate limit''
           \<and> (str_includes (exn_message e) ''network'' \<or> str_includes (exn_message e) ''fetch'') \<longrightarrow>
         assistant_catch e
           = Reply 503 (ErrorBody \<lparr> error = ''Network error'',
               message = ''Unable to connect to the AI service. Please check your connection and try again.'',
               code = ''NETWORK_ERROR'', retryable = True \<rparr>))
   \<and> (\<forall>e. \<not> str_includes (exn_message e) ''API key''
           \<and> \<not> str_includes (exn_message e) ''Rate limit''
           \<and> \<not> str_includes (exn_message e) ''network''
           \<and> \<not> str_includes (exn_message e) ''fetch'' \<longrightarrow>
         assistant_catch e
           = Reply 500 (ErrorBody \<lparr> error = ''Internal server error'',
               message = ''An unexpected error occurred. Please try again.'',
               code = ''INTERNAL_ERROR'', retryable = True \<rparr>))"
proof -
  have notjson: "json response = NotJSON \<longrightarrow>
      handleErrorResponse response
        = Error (''OpenRouter API error: '' @ string_of_nat (status response) @ '' ''
                 @ statusText response)"
    by (simp add: handleErrorResponse_def)
  have null: "json response = JSONNull \<longrightarrow> handleErrorResponse response = cannot_read ''error''"
    by (simp add: handleErrorResponse_def)
  have body: "(status response = 401 \<longrightarrow>
            handleErrorResponse response
              = Error ''Invalid OpenRouter API key. Please check your OPENROUTER_API_KEY environment variable.''
            \<and> assistant_catch (handleErrorResponse response)
              = Reply 500 (ErrorBody \<lparr> error = ''Configuration error'',
                  message = ''The service is not properly configured. Please contact support.'',
                  code = ''CONFIG_ERROR'', retryable = False \<rparr>))
         \<and> (status response = 429 \<longrightarrow>
            handleErrorResponse response = Error ''Rate limit exceeded. Please try again later.''
            \<and> assistant_catch (handleErrorResponse response)
              = Reply 429 (ErrorBody \<lparr> error = ''Rate limit exceeded'',
                  message = ''Too many requests. Please wait a moment and try again.'',
                  code = ''RATE_LIMIT'', retryable = True \<rparr>))
         \<and> (status response = 400 \<longrightarrow>
            handleErrorResponse response = Error (''Bad request: '' @ errorMessage errorData))
         \<and> (status response \<in> {500, 502, 503} \<longrightarrow>
            handleErrorResponse response
              = Error (''OpenRouter service error: '' @ errorMessage errorData
                       @ ''. Please try again.''))
         \<and> (status response \<notin> {400, 401, 429, 500, 502, 503} \<longrightarrow>
            handleErrorResponse response
              = Error (''OpenRouter API error ('' @ errorCode errorData (status response)
                       @ ''): '' @ errorMessage errorData))"
    if j: "json response = JSONBody errorData" for errorData
  proof (intro conjI impI)
    assume "status response = 401"
    with j show "handleErrorResponse response
        = Error ''Invalid OpenRouter API key. Please check your OPENROUTER_API_KEY environment variable.''"
      by (simp add: handleErrorResponse_def)
    then show "assistant_catch (handleErrorResponse response)
        = Reply 500 (ErrorBody \<lparr> error = ''Configuration error'',
            message = ''The service is not properly configured. Please contact support.'',
            code = ''CONFIG_ERROR'', retryable = False \<rparr>)"
      using includes_api_key by (simp only: assistant_catch_def exn_message.simps if_True)
  next
    assume "status response = 429"
    with j show "handleErrorResponse response = Error ''Rate limit exceeded. Please try again later.''"
      by (simp add: handleErrorResponse_def)
    then show "assistant_catch (handleErrorResponse response)
        = Reply 429 (ErrorBody \<lparr> error = ''Rate limit exceeded'',
            message = ''Too many requests. Please wait a moment and try again.'',
            code = ''RATE_LIMIT'', retryable = True \<rparr>)"
      using rate_limit_message by (simp only: assistant_catch_def exn_message.simps if_True if_False)
  next
    assume "status response = 400"
    with j show "handleErrorResponse response = Error (''Bad request: '' @ errorMessage errorData)"
      by (simp add: handleErrorResponse_def)
  next
    assume "status response \<in> {500, 502, 503}"
    with j show "handleErrorResponse response
        = Error (''OpenRouter service error: '' @ errorMessage errorData @ ''. Please try again.'')"
      by (auto simp: handleErrorResponse_def)
  next
    assume "status response \<notin> {400, 401, 429, 500, 502, 503}"
    with j show "handleErrorResponse response
        = Error (''OpenRouter API error ('' @ errorCode errorData (status response)
                 @ ''): '' @ errorMessage errorData)"
      by (simp add: handleErrorResponse_def)
  qed
  have flag: "reply_retryable (assistant_catch e) = Some (\<not> str_includes (exn_message e) ''API key'')"
    for e
    by (simp add: assistant_catch_def)
  have config: "str_includes (exn_message e) ''API key'' \<longrightarrow>
         assistant_catch e
           = Reply 500 (ErrorBody \<lparr> error = ''Configuration error'',
               message = ''The service is not properly configured. Please contact support.'',
               code = ''CONFIG_ERROR'', retryable = False \<rparr>)" for e
    by (simp add: assistant_catch_def)
  have rate: "\<not> str_includes (exn_message e) ''API key''
           \<and> str_includes (exn_message e) ''Rate limit'' \<longrightarrow>
         assistant_catch e
           = Reply 429 (ErrorBody \<lparr> error = ''Rate limit exceeded'',
               message = ''Too many requests. Please wait a moment and try again.'',
               code = ''RATE_LIMIT'', retryable = True \<rparr>)" for e
    by (simp add: assistant_catch_def)
  have network: "\<not> str_includes (exn_message e) ''API key''
           \<and> \<not> str_includes (exn_message e) ''Rate limit''
           \<and> (str_includes (exn_message e) ''network'' \<or> str_includes (exn_message e) ''fetch'') \<longrightarrow>
         assistant_catch e
           = Reply 503 (ErrorBody \<lparr> error = ''Network error'',
               message = ''Unable to connect to the AI service. Please check your connection and try again.'',
               code = ''NETWORK_ERROR'', retryable = True \<rparr>)" for e
    by (simp add: assistant_catch_def)
  have internal: "\<not> str_includes (exn_message e) ''API key''
           \<and> \<not> str_includes (exn_message e) ''Rate limit''
           \<and> \<not> str_includes (exn_message e) ''network''
           \<and> \<not> str_includes (exn_message e) ''fetch'' \<longrightarrow>
         assistant_catch e
           = Reply 500 (ErrorBody \<lparr> error = ''Internal server error'',
               message = ''An unexpected error occurred. Please try again.'',
               code = ''INTERNAL_ERROR'', retryable = True \<rparr>)" for e
    by (simp add: assistant_catch_def)
  show ?thesis
    apply (intro conjI allI)
    apply (rule notjson)
    apply (rule null)
    apply (rule impI, erule body)
    apply (rule flag)
    apply (rule config)
    apply (rule rate)
    apply (rule network)
    apply (rule internal)
    done
qed

text \<open>
  The amended C8 at four responses: a 401 with a JSON body is a configuration error, not
  retryable; a 400 is an internal error, retryable; a 400 whose upstream message mentions an
  API key is a configuration error, not retryable; a 401 whose body is \<^verbatim>\<open>null\<close> is an
  internal error, retryable.
\<close>

theorem C8_status_classification_witness:
  "assistant_catch (handleErrorResponse unauthorized_401)
     = Reply 500 (ErrorBody \<lparr> error = ''Configuration error'',
         message = ''The service is not properly configured. Please contact support.'',
         code = ''CONFIG_ERROR'', retryable = False \<rparr>)
   \<and> assistant_catch (handleErrorResponse bad_request_400)
     = Reply 500 (ErrorBody \<lparr> error = ''Internal server error'',
         message = ''An unexpected error occurred. Please try again.'',
         code = ''INTERNAL_ERROR'', retryable = True \<rparr>)
   \<and> handleErrorResponse bad_key_400 = Error ''Bad request: Invalid API key format''
   \<and> assistant_catch (handleErrorResponse bad_key_400)
     = Reply 500 (ErrorBody \<lparr> error = ''Configuration error'',
         message = ''The service is not properly configured. Please contact support.'',
         code = ''CONFIG_ERROR'', retryable = False \<rparr>)
   \<and> handleErrorResponse null_body_401 = cannot_read ''error''
   \<and> assistant_catch (handleErrorResponse null_body_401)
     = Reply 500 (ErrorBody \<lparr> error = ''Internal server error'',
         message = ''An unexpected error occurred. Please try again.'',
         code = ''INTERNAL_ERROR'', retryable = True \<rparr>)"
proof -
  let ?auth = "\<lparr> error_detail = Some \<lparr> detail_message = ''No auth credentials found'',
                                          detail_type = ''auth'', detail_code = None \<rparr>,
                   top_message = None \<rparr>"
  let ?tokens = "\<lparr> error_detail = Some \<lparr> detail_message = ''max_tokens is too large'',
                                            detail_type = ''invalid_request'',
                                            detail_code = None \<rparr>,
                     top_message = None \<rparr>"
  let ?key = "\<lparr> error_detail = Some \<lparr> detail_message = ''Invalid API key format'',
                                         detail_type = ''invalid_request'',
                                         detail_code = None \<rparr>,
                  top_message = None \<rparr>"
  have j1: "json unauthorized_401 = JSONBody ?auth" and s1: "status unauthorized_401 = 401"
    by (simp_all add: unauthorized_401_def)
  have j2: "json bad_request_400 = JSONBody ?tokens" and s2: "status bad_request_400 = 400"
    by (simp_all add: bad_request_400_def)
  have j3: "json bad_key_400 = JSONBody ?key" and s3: "status bad_key_400 = 400"
    by (simp_all add: bad_key_400_def)
  have j4: "json null_body_401 = JSONNull"
    by (simp add: null_body_401_def)
  have m2: "errorMessage ?tokens = ''max_tokens is too large''"
    and m3: "errorMessage ?key = ''Invalid API key format''"
    by (simp_all add: errorMessage_def)
  have k2: "\<not> str_includes ''Bad request: max_tokens is too large'' ''API key''
            \<and> \<not> str_includes ''Bad request: max_tokens is too large'' ''Rate limit''
            \<and> \<not> str_includes ''Bad request: max_tokens is too large'' ''network''
            \<and> \<not> str_includes ''Bad request: max_tokens is too large'' ''fetch''"
    by simp
  have k3: "str_includes ''Bad request: Invalid API key format'' ''API key''"
    by simp
  have k4: "\<not> str_includes (exn_message (cannot_read ''error'')) ''API key''
            \<and> \<not> str_includes (exn_message (cannot_read ''error'')) ''Rate limit''
            \<and> \<not> str_includes (exn_message (cannot_read ''error'')) ''network''
            \<and> \<not> str_includes (exn_message (cannot_read ''error'')) ''fetch''"
    by (simp add: cannot_read_def)
  note c1 = C8_status_classification [of unauthorized_401]
  from c1 j1 s1 have a: "assistant_catch (handleErrorResponse unauthorized_401)
     = Reply 500 (ErrorBody \<lparr> error = ''Configuration error'',
         message = ''The service is not properly configured. Please contact support.'',
         code = ''CONFIG_ERROR'', retryable = False \<rparr>)"
    by blast
  note c2 = C8_status_classification [of bad_request_400]
  from c2 j2 s2 have h2: "handleErrorResponse bad_request_400
      = Error (''Bad request: '' @ errorMessage ?tokens)"
    by blast
  then have e2: "exn_message (handleErrorResponse bad_request_400)
      = ''Bad request: max_tokens is too large''"
    by (simp add: m2)
  from c2 have "\<not> str_includes (exn_message (handleErrorResponse bad_request_400)) ''API key''
           \<and> \<not> str_includes (exn_message (handleErrorResponse bad_request_400)) ''Rate limit''
           \<and> \<not> str_includes (exn_message (handleErrorResponse bad_request_400)) ''network''
           \<and> \<not> str_includes (exn_message (handleErrorResponse bad_request_400)) ''fetch'' \<longrightarrow>
         assistant_catch (handleErrorResponse bad_request_400)
           = Reply 500 (ErrorBody \<lparr> error = ''Internal server error'',
               message = ''An unexpected error occurred. Please try again.'',
               code = ''INTERNAL_ERROR'', retryable = True \<rparr>)"
    by blast
  with k2 have b: "assistant_catch (handleErrorResponse bad_request_400)
           = Reply 500 (ErrorBody \<lparr> error = ''Internal server error'',
               message = ''An unexpected error occurred. Please try again.'',
               code = ''INTERNAL_ERROR'', retryable = True \<rparr>)"
    unfolding e2 by blast
  note c3 = C8_status_classification [of bad_key_400]
  from c3 j3 s3 have "handleErrorResponse bad_key_400 = Error (''Bad request: '' @ errorMessage ?key)"
    by blast
  then have h3: "handleErrorResponse bad_key_400 = Error ''Bad request: Invalid API key format''"
    by (simp add: m3)
  from c3 have "str_includes (exn_message (handleErrorResponse bad_key_400)) ''API key'' \<longrightarrow>
         assistant_catch (handleErrorResponse bad_key_400)
           = Reply 500 (ErrorBody \<lparr> error = ''Configuration error'',
               message = ''The service is not properly configured. Please contact support.'',
               code = ''CONFIG_ERROR'', retryable = False \<rparr>)"
    by blast
  with k3 have c: "assistant_catch (handleErrorResponse bad_key_400)
           = Reply 500 (ErrorBody \<lparr> error = ''Configuration error'',
               message = ''The service is not properly configured. Please contact support.'',
               code = ''CONFIG_ERROR'', retryable = False \<rparr>)"
    unfolding h3 exn_message.simps by blast
  note c4 = C8_status_classification [of null_body_401]
  from c4 j4 have h4: "handleErrorResponse null_body_401 = cannot_read ''error''"
    by blast
  from c4 have "\<not> str_includes (exn_message (handleErrorResponse null_body_401)) ''API key''
           \<and> \<not> str_includes (exn_message (handleErrorResponse null_body_401)) ''Rate limit''
           \<and> \<not> str_includes (exn_message (handleErrorResponse null_body_401)) ''network''
           \<and> \<not> str_includes (exn_message (handleErrorResponse null_body_401)) ''fetch'' \<longrightarrow>
         assistant_catch (handleErrorResponse null_body_401)
           = Reply 500 (ErrorBody \<lparr> error = ''Internal server error'',
               message = ''An unexpected error occurred. Please try again.'',
               code = ''INTERNAL_ERROR'', retryable = True \<rparr>)"
    by blast
  with k4 have d: "assistant_catch (handleErrorResponse null_body_401)
           = Reply 500 (ErrorBody \<lparr> error = ''Internal server error'',
               message = ''An unexpected error occurred. Please try again.'',
               code = ''INTERNAL_ERROR'', retryable = True \<rparr>)"
    unfolding h4 by blast
  from a b h3 c h4 d show ?thesis
    by (intro conjI)
qed

subsection \<open>C9: request validation\<close>

text \<open>
  C9 at the body \<^verbatim>\<open>{"messages":[null,{"role":"user","content":""}]}\<close>, whose second message
  has an empty content: reading \<^verbatim>\<open>role\<close> of the first message throws, and the handler answers
  with status 500, code \<^verbatim>\<open>INTERNAL_ERROR\<close> and \<^verbatim>\<open>retryable\<close> true, not with the request
  validation failure. No request goes to the gateway.
\<close>

theorem C9_null_message_retryable:
  "assistant_POST parse chat null_message_body
     = (Reply 500 (ErrorBody \<lparr> error = ''Internal server error'',
          message = ''An unexpected error occurred. Please try again.'',
          code = ''INTERNAL_ERROR'', retryable = True \<rparr>), [])"
  by (simp add: assistant_POST_def null_message_body_def assistant_catch_def cannot_read_def)

subsection \<open>C10: the geographic handler accepts what it can parse\<close>

text \<open>
  C10, as stated, at a completion whose plans array holds \<^verbatim>\<open>null\<close>: a JSON object is parsed,
  plans is an array, and the handler answers with status 500.
\<close>

theorem C10_null_plan_rejected:
  "JSON_parse (extract_json (trim null_plan_text))
     = Some (JObj [(''summary'', JStr ''Nothing found.''), (''plans'', JArr [JNull])])
   \<and> map_POST_response JSON_parse clock null_plan_text
     = Reply 500 (MapErrorBody (exn_message (cannot_read ''id'')))"
  by (simp add: extract_null_plan parse_null_plan map_POST_response_def with_id_def map_catch_def)

text \<open>
  C10 (amended): the geographic handler answers with its parse failure when the parser
  rejects the extracted text, and with \<^verbatim>\<open>Invalid response format from AI\<close> when the parsed
  value is not \<^verbatim>\<open>null\<close> and has no plans array. When plans is an array without \<^verbatim>\<open>null\<close>, of
  any length and whatever its plans hold, the handler answers with status 200 and as many
  plans as it received; each plan that is an object is returned with its \<^verbatim>\<open>id\<close> set and
  every other property unchanged; the summary is the parsed one when truthy, otherwise the
  fixed default.
\<close>

theorem C10_geographic_leniency:
  "(parse (extract_json (trim completion)) = None \<longrightarrow>
      map_POST_response parse now completion
        = Reply 500 (MapErrorBody ''Failed to generate valid recommendations. Please try again.''))
   \<and> (\<forall>parsedResponse. parse (extract_json (trim completion)) = Some parsedResponse
         \<and> parsedResponse \<noteq> JNull
         \<and> (\<forall>plans. get parsedResponse ''plans'' \<noteq> Some (JArr plans)) \<longrightarrow>
      map_POST_response parse now completion
        = Reply 500 (MapErrorBody ''Invalid response format from AI''))
   \<and> (\<forall>parsedResponse plans. parse (extract_json (trim completion)) = Some parsedResponse
         \<and> get parsedResponse ''plans'' = Some (JArr plans) \<and> JNull \<notin> set plans \<longrightarrow>
      (\<exists>travelPlans.
         map_POST_response parse now completion
           = Reply 200 (PlansBody (Some (JArr travelPlans))
               (Some (case get parsedResponse ''summary'' of
                        None \<Rightarrow> default_summary
                      | Some v \<Rightarrow> if truthy v then v else default_summary)))
         \<and> length travelPlans = length plans
         \<and> (\<forall>i < length plans. \<forall>kvs. plans ! i = JObj kvs \<longrightarrow>
               travelPlans ! i
                 = JObj (AList.update ''id'' (id_or_generated now i (plans ! i)) kvs)
               \<and> (\<forall>k. k \<noteq> ''id'' \<longrightarrow> get (travelPlans ! i) k = get (plans ! i) k))))"
proof (intro conjI allI impI)
  assume "parse (extract_json (trim completion)) = None"
  then show "map_POST_response parse now completion
      = Reply 500 (MapErrorBody ''Failed to generate valid recommendations. Please try again.'')"
    by (simp add: map_POST_response_def)
next
  fix parsedResponse
  assume h: "parse (extract_json (trim completion)) = Some parsedResponse
         \<and> parsedResponse \<noteq> JNull
         \<and> (\<forall>plans. get parsedResponse ''plans'' \<noteq> Some (JArr plans))"
  then show "map_POST_response parse now completion
      = Reply 500 (MapErrorBody ''Invalid response format from AI'')"
    by (auto simp: map_POST_response_def split: option.splits jsval.splits)
next
  fix parsedResponse plans
  assume h: "parse (extract_json (trim completion)) = Some parsedResponse
         \<and> get parsedResponse ''plans'' = Some (JArr plans) \<and> JNull \<notin> set plans"
  then have p: "parse (extract_json (trim completion)) = Some parsedResponse"
    and g: "get parsedResponse ''plans'' = Some (JArr plans)" and n: "JNull \<notin> set plans"
    by simp_all
  from map_plans_Inr [OF n, of now 0] obtain qs where
    qs: "map_plans now 0 plans = Inr qs" "length qs = length plans"
    "\<forall>k < length plans. qs ! k = attach_id now k (plans ! k)"
    by auto
  have same: "\<forall>i < length plans. \<forall>kvs. plans ! i = JObj kvs \<longrightarrow>
               qs ! i = JObj (AList.update ''id'' (id_or_generated now i (plans ! i)) kvs)
               \<and> (\<forall>k. k \<noteq> ''id'' \<longrightarrow> get (qs ! i) k = get (plans ! i) k)"
    using qs(3) by (auto simp: attach_id_object update_conv')
  show "\<exists>travelPlans.
         map_POST_response parse now completion
           = Reply 200 (PlansBody (Some (JArr travelPlans))
               (Some (case get parsedResponse ''summary'' of
                        None \<Rightarrow> default_summary
                      | Some v \<Rightarrow> if truthy v then v else default_summary)))
         \<and> length travelPlans = length plans
         \<and> (\<forall>i < length plans. \<forall>kvs. plans ! i = JObj kvs \<longrightarrow>
               travelPlans ! i
                 = JObj (AList.update ''id'' (id_or_generated now i (plans ! i)) kvs)
               \<and> (\<forall>k. k \<noteq> ''id'' \<longrightarrow> get (travelPlans ! i) k = get (plans ! i) k))"
  proof (intro exI conjI)
    show "map_POST_response parse now completion
            = Reply 200 (PlansBody (Some (JArr qs))
                (Some (case get parsedResponse ''summary'' of
                         None \<Rightarrow> default_summary
                       | Some v \<Rightarrow> if truthy v then v else default_summary)))"
      by (rule map_POST_response_plans [where parse = parse and completion = completion,
            OF p g qs(1)])
    show "length qs = length plans"
      by (rule qs(2))
    show "\<forall>i < length plans. \<forall>kvs. plans ! i = JObj kvs \<longrightarrow>
               qs ! i = JObj (AList.update ''id'' (id_or_generated now i (plans ! i)) kvs)
               \<and> (\<forall>k. k \<noteq> ''id'' \<longrightarrow> get (qs ! i) k = get (plans ! i) k)"
      by (rule same)
  qed
qed

text \<open>
  The amended C10 at two completions. The first has an empty plans array and no summary. The
  second has an empty summary and five plans, none of which has the fields the conversation
  handler requires: all five are returned, in their order; the first keeps its own
  \<^verbatim>\<open>id\<close>, the others get a generated one, in place of the \<^verbatim>\<open>id\<close> 0 in the fourth and as a
  new last property elsewhere; the summary is the default.
\<close>

theorem C10_geographic_leniency_witness:
  "map_POST_response JSON_parse clock no_plans_text
     = Reply 200 (PlansBody (Some (JArr [])) (Some default_summary))
   \<and> map_POST_response JSON_parse clock five_plans_text
     = Reply 200 (PlansBody (Some (JArr five_plans_returned)) (Some default_summary))"
proof -
  have p: "JSON_parse (extract_json (trim no_plans_text)) = Some (JObj [(''plans'', JArr [])])
           \<and> get (JObj [(''plans'', JArr [])]) ''plans'' = Some (JArr [])
           \<and> JNull \<notin> set []"
    by (simp add: extract_no_plans parse_no_plans)
  from C10_geographic_leniency [of JSON_parse no_plans_text clock] p
  obtain travelPlans where
    "map_POST_response JSON_parse clock no_plans_text
       = Reply 200 (PlansBody (Some (JArr travelPlans))
           (Some (case get (JObj [(''plans'', JArr [])]) ''summary'' of
                    None \<Rightarrow> default_summary
                  | Some v \<Rightarrow> if truthy v then v else default_summary)))"
    and "length travelPlans = length ([] :: jsval list)"
    by blast
  then have first: "map_POST_response JSON_parse clock no_plans_text
     = Reply 200 (PlansBody (Some (JArr [])) (Some default_summary))"
    by simp
  let ?v = "JObj [(''summary'', JStr []), (''plans'', JArr five_plans)]"
  have q: "JSON_parse (extract_json (trim five_plans_text)) = Some ?v
           \<and> get ?v ''plans'' = Some (JArr five_plans)
           \<and> JNull \<notin> set five_plans"
    by (simp add: extract_five_plans parse_five_plans) (simp add: five_plans_def)
  from C10_geographic_leniency [of JSON_parse five_plans_text clock] q
  obtain tp where
    a: "map_POST_response JSON_parse clock five_plans_text
       = Reply 200 (PlansBody (Some (JArr tp))
           (Some (case get ?v ''summary'' of
                    None \<Rightarrow> default_summary
                  | Some v \<Rightarrow> if truthy v then v else default_summary)))"
    and l: "length tp = length five_plans"
    and e: "\<forall>i < length five_plans. \<forall>kvs. five_plans ! i = JObj kvs \<longrightarrow>
               tp ! i = JObj (AList.update ''id'' (id_or_generated clock i (five_plans ! i)) kvs)
               \<and> (\<forall>k. k \<noteq> ''id'' \<longrightarrow> get (tp ! i) k = get (five_plans ! i) k)"
    by blast
  have n: "length five_plans = 5"
    by (simp add: five_plans_def)
  have t0: "tp ! 0 = five_plans_returned ! 0"
    using e [rule_format, of 0 "[(''id'', JStr ''keep''), (''destination'', JStr ''A'')]"]
    by (simp add: five_plans_def five_plans_returned_def id_or_generated_def)
  have t1: "tp ! 1 = five_plans_returned ! 1"
    using e [rule_format, of 1 "[(''destination'', JStr ''B'')]"]
    by (simp add: five_plans_def five_plans_returned_def id_or_generated_def generated_id_def
          clock_def string_of_nat.simps)
  have t2: "tp ! 2 = five_plans_returned ! 2"
    using e [rule_format, of 2 "[]"]
    by (simp add: five_plans_def five_plans_returned_def id_or_generated_def generated_id_def
          clock_def string_of_nat.simps)
  have t3: "tp ! 3 = five_plans_returned ! 3"
    using e [rule_format, of 3 "[(''id'', JNum 0), (''x'', JNum 1)]"]
    by (simp add: five_plans_def five_plans_returned_def id_or_generated_def generated_id_def
          clock_def string_of_nat.simps)
  have t4: "tp ! 4 = five_plans_returned ! 4"
    using e [rule_format, of 4 "[(''country'', JStr ''C'')]"]
    by (simp add: five_plans_def five_plans_returned_def id_or_generated_def generated_id_def
          clock_def string_of_nat.simps)
  have "tp = five_plans_returned"
  proof (rule nth_equalityI)
    show "length tp = length five_plans_returned"
      using l n by (simp add: five_plans_returned_def)
  next
    fix i
    assume "i < length tp"
    with l n have "i = 0 \<or> i = 1 \<or> i = 2 \<or> i = 3 \<or> i = 4"
      by auto
    with t0 t1 t2 t3 t4 show "tp ! i = five_plans_returned ! i"
      by auto
  qed
  with a have second: "map_POST_response JSON_parse clock five_plans_text
     = Reply 200 (PlansBody (Some (JArr five_plans_returned)) (Some default_summary))"
    by simp
  from first second show ?thesis
    by simp
qed

end
